theory Spec2Isabelle
  imports Complex_Main "HOL-Library.List_Lexorder"
begin

section \<open>Python strings\<close>

text \<open>
  A Python \<open>str\<close> is a sequence of Unicode code points, so a string is modelled as the
  list of its code points. \<open>u\<close> embeds an ASCII literal.
\<close>

type_synonym ustr = "nat list"

definition u :: "string \<Rightarrow> ustr" where
  "u s = map of_char s"

definition is_upper_ascii :: "nat \<Rightarrow> bool" where
  "is_upper_ascii c = (65 \<le> c \<and> c \<le> 90)"

definition is_lower_ascii :: "nat \<Rightarrow> bool" where
  "is_lower_ascii c = (97 \<le> c \<and> c \<le> 122)"

definition is_digit_ascii :: "nat \<Rightarrow> bool" where
  "is_digit_ascii c = (48 \<le> c \<and> c \<le> 57)"

text \<open>
  \<open>str.isspace\<close> on one code point: the characters \<open>str.strip()\<close> removes when it is
  called with no argument.
\<close>

definition is_space :: "nat \<Rightarrow> bool" where
  "is_space c =
     ((9 \<le> c \<and> c \<le> 13) \<or> (28 \<le> c \<and> c \<le> 32) \<or> c = 133 \<or> c = 160 \<or> c = 5760
      \<or> (8192 \<le> c \<and> c \<le> 8202) \<or> c = 8232 \<or> c = 8233 \<or> c = 8239 \<or> c = 8287
      \<or> c = 12288)"

definition lstrip :: "ustr \<Rightarrow> ustr" where
  "lstrip s = dropWhile is_space s"

definition rstrip :: "ustr \<Rightarrow> ustr" where
  "rstrip s = rev (dropWhile is_space (rev s))"

definition strip :: "ustr \<Rightarrow> ustr" where
  "strip s = rstrip (lstrip s)"

text \<open>\<open>s.replace(c, "")\<close> for a one-character \<open>c\<close>: every occurrence is removed.\<close>

definition remove_char :: "nat \<Rightarrow> ustr \<Rightarrow> ustr" where
  "remove_char c s = filter (\<lambda>x. x \<noteq> c) s"

text \<open>
  \<open>str.upper()\<close> and \<open>str.lower()\<close>. On ASCII they shift the letters and leave the
  rest. Outside ASCII they follow the Unicode case tables, which are not part of the
  repository: the tables are a parameter, \<open>uc\<close> giving the (possibly longer) upper-case
  expansion of a non-ASCII code point and \<open>lc\<close> the lower-case one.
\<close>

definition upper_cp :: "(nat \<Rightarrow> ustr) \<Rightarrow> nat \<Rightarrow> ustr" where
  "upper_cp uc c =
     (if is_lower_ascii c then [c - 32] else if c < 128 then [c] else uc c)"

definition upper :: "(nat \<Rightarrow> ustr) \<Rightarrow> ustr \<Rightarrow> ustr" where
  "upper uc s = concat (map (upper_cp uc) s)"

definition lower_cp :: "(nat \<Rightarrow> ustr) \<Rightarrow> nat \<Rightarrow> ustr" where
  "lower_cp lc c =
     (if is_upper_ascii c then [c + 32] else if c < 128 then [c] else lc c)"

definition lower :: "(nat \<Rightarrow> ustr) \<Rightarrow> ustr \<Rightarrow> ustr" where
  "lower lc s = concat (map (lower_cp lc) s)"

section \<open>Identifier cleaning at ingest time (ingest\_voters\_to\_supabase.py)\<close>

definition clean_voter_id :: "ustr \<Rightarrow> ustr" where
  "clean_voter_id raw = strip (remove_char 47 raw)"

section \<open>Identifier normalisation at query time (main.py)\<close>

text \<open>The character class \<open>[A-Z0-9]\<close> of both regular expressions of main.py.\<close>

definition allowed_char :: "nat \<Rightarrow> bool" where
  "allowed_char c = (is_upper_ascii c \<or> is_digit_ascii c)"

definition normalize_voter_id :: "(nat \<Rightarrow> ustr) \<Rightarrow> ustr \<Rightarrow> ustr" where
  "normalize_voter_id uc raw =
     (let cleaned = upper uc (remove_char 47 raw);
          cleaned = filter allowed_char cleaned
      in take 40 cleaned)"

text \<open>
  \<open>VOTER_ID_ALLOWED.match(s)\<close> for the pattern \<open>^[A-Z0-9]{3,40}$\<close>. \<open>match\<close> anchors at the
  start, and \<open>$\<close> matches at the end of the string or just before one final newline
  (code point 10).
\<close>

definition VOTER_ID_ALLOWED_match :: "ustr \<Rightarrow> bool" where
  "VOTER_ID_ALLOWED_match s =
     (let body = (if s \<noteq> [] \<and> last s = 10 then butlast s else s)
      in 3 \<le> length body \<and> length body \<le> 40 \<and> list_all allowed_char body)"

datatype error =
    ValueError string
  | ZeroDivisionError
  | RuntimeError ustr
  | ServiceError string
  | HTTPException nat string
  | SystemExit nat

record voter_row =
  voter_id :: ustr
  single_page_pdf_link :: ustr
  full_pdf_link :: ustr

record search_response =
  query_raw :: ustr
  query_normalized :: ustr
  count :: nat
  results :: "voter_row list"

text \<open>
  The body of the \<open>/search\<close> handler. \<open>select_eq\<close> is the table store: asked for the rows
  whose \<open>voter_id\<close> equals the normalised identifier, it raises (\<open>Inl\<close>, an exception of
  the client library, never an \<open>HTTPException\<close>) or answers with \<open>resp.data\<close>, which may
  be \<open>None\<close>.
\<close>

definition search_voter ::
  "(nat \<Rightarrow> ustr) \<Rightarrow> (ustr \<Rightarrow> string + voter_row list option) \<Rightarrow> ustr \<Rightarrow> error + search_response"
where
  "search_voter uc select_eq raw =
     (let norm_id = normalize_voter_id uc raw in
      if \<not> VOTER_ID_ALLOWED_match norm_id
      then Inl (HTTPException 400 ''Invalid voter_id format'')
      else
        (case select_eq norm_id of
           Inl e \<Rightarrow> Inl (HTTPException 500 ''Internal error'')
         | Inr resp_data \<Rightarrow>
             (let data = (case resp_data of None \<Rightarrow> [] | Some d \<Rightarrow> d) in
              if data = [] then Inl (HTTPException 404 ''Voter ID not found'')
              else Inr \<lparr>query_raw = raw, query_normalized = norm_id,
                        count = length data, results = data\<rparr>)))"

section \<open>Identifier extraction (ingest\_voters\_to\_supabase.py)\<close>

text \<open>
  \<open>rx.findall(ln)\<close> belongs to Python's \<open>re\<close> module; \<open>extract_ids_from_lines\<close> takes it
  as the function \<open>findall\<close> of the compiled pattern. For a pattern of the form \<open>[C]+\<close>,
  such as the default \<open>[A-Za-z0-9/]+\<close> of \<open>parse_args\<close>, the non-overlapping matches
  are the maximal runs of characters of the class \<open>C\<close>, from left to right.
\<close>

function findall_class_plus :: "(nat \<Rightarrow> bool) \<Rightarrow> ustr \<Rightarrow> ustr list" where
  "findall_class_plus C [] = []"
| "findall_class_plus C (c # cs) =
     (if C c then (c # takeWhile C cs) # findall_class_plus C (dropWhile C cs)
      else findall_class_plus C cs)"
  by pat_completeness auto
termination
  by (relation "measure (\<lambda>(C, s). length s)") (auto simp: length_dropWhile_le le_imp_less_Suc)

definition default_regex_class :: "nat \<Rightarrow> bool" where
  "default_regex_class c =
     (is_upper_ascii c \<or> is_lower_ascii c \<or> is_digit_ascii c \<or> c = 47)"

definition default_regex_findall :: "ustr \<Rightarrow> ustr list" where
  "default_regex_findall line = findall_class_plus default_regex_class line"

text \<open>The first loop: every match of every line, cleaned, the empty ones dropped.\<close>

definition cleaned_ids :: "(ustr \<Rightarrow> ustr list) \<Rightarrow> ustr list \<Rightarrow> ustr list" where
  "cleaned_ids findall lines =
     filter (\<lambda>cleaned. cleaned \<noteq> []) (map clean_voter_id (concat (map findall lines)))"

text \<open>The second loop: keep an identifier the first time it is seen.\<close>

fun uniq_loop :: "ustr set \<Rightarrow> ustr list \<Rightarrow> ustr list" where
  "uniq_loop seen [] = []"
| "uniq_loop seen (vid # ids) =
     (if vid \<notin> seen then vid # uniq_loop (insert vid seen) ids else uniq_loop seen ids)"

definition extract_ids_from_lines :: "(ustr \<Rightarrow> ustr list) \<Rightarrow> ustr list \<Rightarrow> ustr list" where
  "extract_ids_from_lines findall lines = uniq_loop {} (cleaned_ids findall lines)"

section \<open>Paths and content types (ingest\_voters\_to\_supabase.py)\<close>

text \<open>
  \<open>Path.suffix\<close> and \<open>Path.stem\<close> of pathlib, on the file name: the suffix starts at the
  last dot, unless that dot is the first or the last character of the name.
\<close>

definition rfind :: "nat \<Rightarrow> ustr \<Rightarrow> nat option" where
  "rfind c s =
     (if c \<in> set s then Some (length s - 1 - length (takeWhile (\<lambda>x. x \<noteq> c) (rev s)))
      else None)"

definition path_suffix :: "ustr \<Rightarrow> ustr" where
  "path_suffix name =
     (case rfind 46 name of
        None \<Rightarrow> []
      | Some i \<Rightarrow> if 0 < i \<and> i < length name - 1 then drop i name else [])"

definition path_stem :: "ustr \<Rightarrow> ustr" where
  "path_stem name =
     (case rfind 46 name of
        None \<Rightarrow> name
      | Some i \<Rightarrow> if 0 < i \<and> i < length name - 1 then take i name else name)"

text \<open>\<open>ext.lstrip('.')\<close>: the leading dots are removed.\<close>

definition lstrip_dots :: "ustr \<Rightarrow> ustr" where
  "lstrip_dots s = dropWhile (\<lambda>c. c = 46) s"

definition raster_exts :: "ustr list" where
  "raster_exts =
     [u ''.png'', u ''.jpg'', u ''.jpeg'', u ''.tif'', u ''.tiff'', u ''.bmp'', u ''.gif'',
      u ''.webp'']"

text \<open>The content type \<open>upload_and_get_url\<close> declares for a file with the given suffix.\<close>

definition content_type_of :: "(nat \<Rightarrow> ustr) \<Rightarrow> ustr \<Rightarrow> ustr" where
  "content_type_of lc suffix =
     (let ext = lower lc suffix in
      if ext = u ''.pdf'' then u ''application/pdf''
      else if ext \<in> set raster_exts
        then u ''image/'' @ (if ext \<noteq> u ''.jpg'' then lstrip_dots ext else u ''jpeg'')
      else u ''application/octet-stream'')"

section \<open>The crop rectangle of the command line (ingest\_voters\_to\_supabase.py)\<close>

text \<open>\<open>s.split(c)\<close> for a one-character separator: \<open>n\<close> separators give \<open>n + 1\<close> fields.\<close>

fun split_on :: "nat \<Rightarrow> ustr \<Rightarrow> ustr list" where
  "split_on c [] = [[]]"
| "split_on c (x # xs) =
     (if x = c then [] # split_on c xs
      else (case split_on c xs of [] \<Rightarrow> [[x]] | f # fs \<Rightarrow> (x # f) # fs))"

text \<open>
  The list comprehension \<open>[float(s.strip()) for s in crop_str.split(",")]\<close>. Python's
  \<open>float\<close> is the parameter \<open>to_float\<close>: \<open>None\<close> where it raises \<open>ValueError\<close>. Numbers are
  rationals, the exact values the floating-point results approximate.
\<close>

definition crop_fields :: "(ustr \<Rightarrow> rat option) \<Rightarrow> ustr \<Rightarrow> rat option list" where
  "crop_fields to_float crop_str = map (\<lambda>s. to_float (strip s)) (split_on 44 crop_str)"

type_synonym rect4 = "rat \<times> rat \<times> rat \<times> rat"

text \<open>
  \<open>convert_crop_units\<close>. A field that is no number, or a number of fields other than
  four, raises inside the \<open>try\<close> and is re-raised as the \<open>ValueError\<close> of the function;
  the division \<open>72.0 / dpi\<close> stands outside the \<open>try\<close>.
\<close>

definition convert_crop_units ::
  "(ustr \<Rightarrow> rat option) \<Rightarrow> ustr \<Rightarrow> ustr \<Rightarrow> int \<Rightarrow> error + rect4 option"
where
  "convert_crop_units to_float crop_str units dpi =
     (if crop_str = [] then Inr None
      else
        (case crop_fields to_float crop_str of
           [Some x, Some y, Some w, Some h] \<Rightarrow>
             if units = u ''px''
             then
               (if dpi = 0 then Inl ZeroDivisionError
                else
                  (let scale = 72 / of_int dpi;
                       x = x * scale; y = y * scale; w = w * scale; h = h * scale
                   in Inr (Some (x, y, x + w, y + h))))
             else Inr (Some (x, y, x + w, y + h))
         | _ \<Rightarrow> Inl (ValueError ''Invalid --ocr-crop. Expected 'x,y,w,h' numbers.'')))"

text \<open>
  An instance of \<open>to_float\<close> for the examples: \<open>float\<close> on the strings of ASCII digits.
\<close>

definition digits_float :: "ustr \<Rightarrow> rat option" where
  "digits_float s =
     (if s \<noteq> [] \<and> list_all is_digit_ascii s
      then Some (of_nat (foldl (\<lambda>a c. 10 * a + (c - 48)) 0 s)) else None)"

section \<open>Rectangles of the PDF engine\<close>

text \<open>
  \<open>fitz.Rect\<close> belongs to PyMuPDF, not to the repository. Its operations are modelled as
  PyMuPDF documents them: a rectangle is empty when it has no area, the infinite rectangle
  is one fixed constant, and \<open>a & b\<close> is the intersection, where an infinite operand gives
  the other one and an empty operand gives an empty result.
\<close>

record rect =
  x0 :: rat
  y0 :: rat
  x1 :: rat
  y1 :: rat

definition rect_is_empty :: "rect \<Rightarrow> bool" where
  "rect_is_empty r = (x1 r \<le> x0 r \<or> y1 r \<le> y0 r)"

definition rect_is_infinite :: "rect \<Rightarrow> bool" where
  "rect_is_infinite r =
     (x0 r = - 2147483648 \<and> y0 r = - 2147483648 \<and> x1 r = 2147483520 \<and> y1 r = 2147483520)"

definition rect_and :: "rect \<Rightarrow> rect \<Rightarrow> rect" where
  "rect_and a b =
     (if rect_is_infinite b then a
      else if rect_is_infinite a then b
      else if rect_is_empty b then b
      else if rect_is_empty a then a
      else \<lparr>x0 = max (x0 a) (x0 b), y0 = max (y0 a) (y0 b),
            x1 = min (x1 a) (x1 b), y1 = min (y1 a) (y1 b)\<rparr>)"

section \<open>Page numbers in file names\<close>

text \<open>The format \<open>{n:04d}\<close>: decimal digits, padded with zeros to four characters.\<close>

function digits :: "nat \<Rightarrow> ustr" where
  "digits n = (if n < 10 then [48 + n] else digits (n div 10) @ [48 + n mod 10])"
  by pat_completeness auto
termination
  by (relation "measure id") auto

definition fmt_04d :: "nat \<Rightarrow> ustr" where
  "fmt_04d n = replicate (4 - length (digits n)) 48 @ digits n"

section \<open>The crop tool (pdf\_crop.py)\<close>

record crop_args =
  arg_x :: rat
  arg_y :: rat
  arg_w :: "rat option"
  arg_h :: "rat option"
  arg_x2 :: "rat option"
  arg_y2 :: "rat option"
  arg_page_start :: int
  arg_page_end :: "int option"
  arg_fmt :: ustr
  arg_respect_rotation :: bool

record 'pg crop_page =
  page_rect :: rect
  page_rotation :: int
  page_content :: 'pg

text \<open>What the tool prints and writes, in order.\<close>

datatype crop_event =
    Warning_outside nat
  | Saved_crop ustr
  | Saved_full ustr
  | Crop_done nat

text \<open>
  The body of the page loop. \<open>save_image\<close> is the PDF engine rendering a page (the clip
  \<open>Some r\<close>, or the full page for \<open>None\<close>; rotated or not) and saving the image under a
  file name: it answers \<open>Some msg\<close> when it raises. \<open>saved\<close> is the counter of the loop.
\<close>

definition crop_one_page ::
  "('pg \<Rightarrow> bool \<Rightarrow> rect option \<Rightarrow> ustr \<Rightarrow> string option) \<Rightarrow> crop_args \<Rightarrow> ustr \<Rightarrow> rect
     \<Rightarrow> nat \<Rightarrow> 'pg crop_page \<Rightarrow> nat \<Rightarrow> (error + nat) \<times> crop_event list"
where
  "crop_one_page save_image args stem crop_rect page_number page saved =
     (let clip = rect_and crop_rect (page_rect page) in
      if rect_is_empty clip then (Inr saved, [Warning_outside page_number])
      else
        (let rotate = (arg_respect_rotation args \<and> page_rotation page \<noteq> 0);
             out_crop = stem @ u ''_p'' @ fmt_04d page_number @ u ''_crop.'' @ arg_fmt args;
             out_full = stem @ u ''_p'' @ fmt_04d page_number @ u ''_full.'' @ arg_fmt args
         in
           (case save_image (page_content page) rotate (Some clip) out_crop of
              Some msg \<Rightarrow> (Inl (ServiceError msg), [])
            | None \<Rightarrow>
                (case save_image (page_content page) rotate None out_full of
                   Some msg \<Rightarrow> (Inl (ServiceError msg), [Saved_crop out_crop])
                 | None \<Rightarrow> (Inr (saved + 1), [Saved_crop out_crop, Saved_full out_full])))))"

fun crop_pages ::
  "('pg \<Rightarrow> bool \<Rightarrow> rect option \<Rightarrow> ustr \<Rightarrow> string option) \<Rightarrow> crop_args \<Rightarrow> ustr \<Rightarrow> rect
     \<Rightarrow> nat \<Rightarrow> 'pg crop_page list \<Rightarrow> nat \<Rightarrow> (error + nat) \<times> crop_event list"
where
  "crop_pages save_image args stem crop_rect page_number [] saved = (Inr saved, [])"
| "crop_pages save_image args stem crop_rect page_number (page # rest) saved =
     (case crop_one_page save_image args stem crop_rect page_number page saved of
        (Inl e, ev) \<Rightarrow> (Inl e, ev)
      | (Inr saved', ev) \<Rightarrow>
          (case crop_pages save_image args stem crop_rect (Suc page_number) rest saved' of
             (r, ev') \<Rightarrow> (r, ev @ ev')))"

text \<open>
  \<open>main\<close> of pdf\_crop.py for an input file that exists, with the pages \<open>doc\<close> and the stem
  of its name: the page range, the crop rectangle and the loop over
  \<open>range(p_start, p_end + 1)\<close>.
\<close>

definition crop_main ::
  "('pg \<Rightarrow> bool \<Rightarrow> rect option \<Rightarrow> ustr \<Rightarrow> string option) \<Rightarrow> crop_args \<Rightarrow> ustr
     \<Rightarrow> 'pg crop_page list \<Rightarrow> (error + unit) \<times> crop_event list"
where
  "crop_main save_image args stem doc =
     (let total_pages = int (length doc);
          p_start = max 1 (arg_page_start args);
          p_end = (case arg_page_end args of None \<Rightarrow> total_pages | Some e \<Rightarrow> min e total_pages)
      in
        if p_start > p_end then (Inl (SystemExit 1), [])
        else
          (case (case (arg_w args, arg_h args) of
                   (Some w, Some h) \<Rightarrow> Some (arg_x args + w, arg_y args + h)
                 | _ \<Rightarrow> (case (arg_x2 args, arg_y2 args) of
                           (Some a, Some b) \<Rightarrow> Some (a, b)
                         | _ \<Rightarrow> None)) of
             None \<Rightarrow> (Inl (SystemExit 1), [])
           | Some (x2, y2) \<Rightarrow>
               (let crop_rect = \<lparr>x0 = arg_x args, y0 = arg_y args, x1 = x2, y1 = y2\<rparr> in
                if rect_is_empty crop_rect \<or> rect_is_infinite crop_rect
                then (Inl (SystemExit 1), [])
                else
                  (case crop_pages save_image args stem crop_rect (nat p_start)
                          (take (nat (p_end + 1 - p_start)) (drop (nat (p_start - 1)) doc)) 0 of
                     (Inl e, ev) \<Rightarrow> (Inl e, ev)
                   | (Inr saved, ev) \<Rightarrow> (Inr (), ev @ [Crop_done saved])))))"

section \<open>The OCR wrapper (ocr\_cloud\_vision.py)\<close>

text \<open>
  \<open>str.splitlines()\<close>: a line ends at a line boundary character, \<open>\r\n\<close> counting as one,
  and a boundary at the very end opens no further line. \<open>acc\<close> is the current line,
  reversed.
\<close>

definition is_linebreak :: "nat \<Rightarrow> bool" where
  "is_linebreak c =
     (c = 10 \<or> c = 11 \<or> c = 12 \<or> c = 13 \<or> c = 28 \<or> c = 29 \<or> c = 30 \<or> c = 133
      \<or> c = 8232 \<or> c = 8233)"

fun splitlines_from :: "ustr \<Rightarrow> ustr \<Rightarrow> ustr list" where
  "splitlines_from acc [] = (if acc = [] then [] else [rev acc])"
| "splitlines_from acc [c] =
     (if is_linebreak c then [rev acc] else [rev (c # acc)])"
| "splitlines_from acc (c # d # cs) =
     (if c = 13 \<and> d = 10 then rev acc # splitlines_from [] cs
      else if is_linebreak c then rev acc # splitlines_from [] (d # cs)
      else splitlines_from (c # acc) (d # cs))"

definition splitlines :: "ustr \<Rightarrow> ustr list" where
  "splitlines s = splitlines_from [] s"

text \<open>The loop that keeps the stripped, non-empty lines of a text.\<close>

definition text_lines :: "ustr \<Rightarrow> ustr list" where
  "text_lines full_text = filter (\<lambda>line. line \<noteq> []) (map strip (splitlines full_text))"

text \<open>
  The answer of the Vision client: the error message (empty when there is none), the text
  of the full-text annotation (empty when there is none) and the descriptions of the
  text annotations.
\<close>

record ocr_response =
  error_message :: ustr
  full_text_annotation :: ustr
  text_annotations :: "ustr list"

text \<open>
  \<open>ocr_image_texts\<close>. \<open>text_detection\<close> is the call of the Vision client, which raises
  (\<open>Inl\<close>) or answers; an answer carrying an error message is raised as \<open>RuntimeError\<close>.
\<close>

definition ocr_image_texts ::
  "('img \<Rightarrow> ustr list \<Rightarrow> string + ocr_response) \<Rightarrow> 'img \<Rightarrow> ustr list \<Rightarrow> error + ustr list"
where
  "ocr_image_texts text_detection img language_hints =
     (case text_detection img language_hints of
        Inl msg \<Rightarrow> Inl (ServiceError msg)
      | Inr response \<Rightarrow>
          if error_message response \<noteq> []
          then Inl (RuntimeError
                 (u ''Vision API error: '' @ error_message response @ [10] @
                  u ''Check billing/quotas/permissions and GOOGLE_APPLICATION_CREDENTIALS.''))
          else if full_text_annotation response \<noteq> []
            then Inr (text_lines (full_text_annotation response))
          else
            (case text_annotations response of
               [] \<Rightarrow> Inr []
             | description # _ \<Rightarrow> Inr (text_lines description)))"

section \<open>The ingestion pipeline (ingest\_voters\_to\_supabase.py)\<close>

text \<open>
  The external services, as functions of their arguments. \<open>storage_upload\<close> (storage
  path, content type) answers \<open>Some msg\<close> when the upload raises; \<open>get_pixmap\<close> (page,
  zoom, clip) is the PDF engine rendering to PNG bytes; \<open>table_insert\<close> raises or returns
  a response, whose \<open>error\<close> attribute is \<open>Some e\<close> when it is set.
\<close>

record ('pg, 'img) services =
  storage_upload :: "ustr \<Rightarrow> ustr \<Rightarrow> string option"
  get_public_url :: "ustr \<Rightarrow> ustr"
  get_pixmap :: "'pg \<Rightarrow> rat \<Rightarrow> rect option \<Rightarrow> string + 'img"
  text_detection :: "'img \<Rightarrow> ustr list \<Rightarrow> string + ocr_response"
  table_insert :: "ustr \<Rightarrow> voter_row list \<Rightarrow> string + ustr option"

record ingest_args =
  arg_table :: ustr
  arg_storage_prefix :: ustr
  arg_dpi :: int
  arg_ocr_crop :: ustr
  arg_units :: ustr
  arg_langs :: ustr
  arg_regex :: "ustr \<Rightarrow> ustr list"

text \<open>A file of the input folder: its name, and what \<open>fitz.open\<close> gives for it.\<close>

record 'pg pdf_file =
  file_name :: ustr
  file_pages :: "string + 'pg list"

text \<open>What the run does to the outside and prints, in order.\<close>

datatype event =
    Processing ustr
  | Stored ustr ustr
  | Uploaded_full ustr
  | Uploaded_single nat ustr
  | No_ids nat
  | Rows_inserted ustr "voter_row list"
  | Insert_error ustr
  | Inserted nat nat
  | Done

text \<open>
  \<open>upload_and_get_url\<close>, for the local file whose name, the last component of
  \<open>local_path\<close>, is \<open>local_name\<close>: pathlib takes the suffix of a path from its name.
\<close>

definition upload_and_get_url ::
  "(nat \<Rightarrow> ustr) \<Rightarrow> ('pg, 'img) services \<Rightarrow> ustr \<Rightarrow> ustr \<Rightarrow> (error + ustr) \<times> event list"
where
  "upload_and_get_url lc svc storage_path local_name =
     (let content_type = content_type_of lc (path_suffix local_name) in
      case storage_upload svc storage_path content_type of
        Some msg \<Rightarrow> (Inl (ServiceError msg), [])
      | None \<Rightarrow> (Inr (get_public_url svc storage_path), [Stored storage_path content_type]))"

text \<open>
  \<open>render_page_for_ocr\<close>: the crop rectangle, when there is one, goes to the engine as
  the clip, as it is.
\<close>

definition render_page_for_ocr ::
  "('pg \<Rightarrow> rat \<Rightarrow> rect option \<Rightarrow> string + 'img) \<Rightarrow> 'pg \<Rightarrow> int \<Rightarrow> rect4 option \<Rightarrow> error + 'img"
where
  "render_page_for_ocr pixmap page dpi crop_rect_pt =
     (let zoom = of_int dpi / 72;
          clip = (case crop_rect_pt of
                    None \<Rightarrow> None
                  | Some (a, b, c, d) \<Rightarrow> Some \<lparr>x0 = a, y0 = b, x1 = c, y1 = d\<rparr>)
      in case pixmap page zoom clip of
           Inl msg \<Rightarrow> Inl (ServiceError msg)
         | Inr png \<Rightarrow> Inr png)"

text \<open>\<open>s.strip("/")\<close>.\<close>

definition strip_slashes :: "ustr \<Rightarrow> ustr" where
  "strip_slashes s = rev (dropWhile (\<lambda>c. c = 47) (rev (dropWhile (\<lambda>c. c = 47) s)))"

text \<open>
  The storage paths and the name of the single-page file, for the file \<open>name\<close> and the
  page number \<open>page_num\<close>: \<open>full_storage_path\<close>, \<open>single_local.name\<close> and
  \<open>single_storage_path\<close> of \<open>main\<close>, with \<open>storage_prefix\<close> the stripped argument.
\<close>

definition full_storage_path :: "ingest_args \<Rightarrow> ustr \<Rightarrow> ustr" where
  "full_storage_path args name =
     strip_slashes (arg_storage_prefix args) @ u ''/'' @ path_stem name @ u ''/'' @ name"

definition single_local_name :: "ustr \<Rightarrow> nat \<Rightarrow> ustr" where
  "single_local_name name page_num = path_stem name @ u ''_p'' @ fmt_04d page_num @ u ''.pdf''"

definition single_storage_path :: "ingest_args \<Rightarrow> ustr \<Rightarrow> nat \<Rightarrow> ustr" where
  "single_storage_path args name page_num =
     strip_slashes (arg_storage_prefix args) @ u ''/'' @ path_stem name @ u ''/pages/'' @
     single_local_name name page_num"

text \<open>
  The body of the page loop, for the page with index \<open>i\<close> of the file \<open>name\<close>: the result
  is \<open>Inl\<close> when an exception leaves the body, with the events up to there.
\<close>

definition process_page ::
  "(nat \<Rightarrow> ustr) \<Rightarrow> ('pg, 'img) services \<Rightarrow> ingest_args \<Rightarrow> rect4 option \<Rightarrow> ustr list \<Rightarrow> ustr
     \<Rightarrow> ustr \<Rightarrow> nat \<Rightarrow> 'pg \<Rightarrow> (error + unit) \<times> event list"
where
  "process_page lc svc args crop_rect_pt lang_list name full_url i page =
     (let page_num = i + 1 in
        (case upload_and_get_url lc svc (single_storage_path args name page_num)
                (single_local_name name page_num) of
           (Inl e, ev) \<Rightarrow> (Inl e, ev)
         | (Inr single_url, ev) \<Rightarrow>
             (let ev1 = ev @ [Uploaded_single page_num single_url] in
              case render_page_for_ocr (get_pixmap svc) page (arg_dpi args) crop_rect_pt of
                Inl e \<Rightarrow> (Inl e, ev1)
              | Inr img_bytes \<Rightarrow>
                  (case ocr_image_texts (text_detection svc) img_bytes lang_list of
                     Inl e \<Rightarrow> (Inl e, ev1)
                   | Inr lines \<Rightarrow>
                       (let voter_ids = extract_ids_from_lines (arg_regex args) lines in
                        if voter_ids = [] then (Inr (), ev1 @ [No_ids page_num])
                        else
                          (let rows =
                                 map (\<lambda>vid. \<lparr>voter_id = vid, single_page_pdf_link = single_url,
                                              full_pdf_link = full_url\<rparr>) voter_ids
                           in case table_insert svc (arg_table args) rows of
                                Inl msg \<Rightarrow> (Inl (ServiceError msg), ev1)
                              | Inr (Some err) \<Rightarrow> (Inr (), ev1 @ [Insert_error err])
                              | Inr None \<Rightarrow>
                                  (Inr (),
                                   ev1 @ [Rows_inserted (arg_table args) rows,
                                          Inserted (length rows) page_num])))))))"

fun pages_loop ::
  "(nat \<Rightarrow> ustr) \<Rightarrow> ('pg, 'img) services \<Rightarrow> ingest_args \<Rightarrow> rect4 option \<Rightarrow> ustr list \<Rightarrow> ustr
     \<Rightarrow> ustr \<Rightarrow> nat \<Rightarrow> 'pg list \<Rightarrow> (error + unit) \<times> event list"
where
  "pages_loop lc svc args crop_rect_pt lang_list name full_url i [] = (Inr (), [])"
| "pages_loop lc svc args crop_rect_pt lang_list name full_url i (page # rest) =
     (case process_page lc svc args crop_rect_pt lang_list name full_url i page of
        (Inl e, ev) \<Rightarrow> (Inl e, ev)
      | (Inr _, ev) \<Rightarrow>
          (case pages_loop lc svc args crop_rect_pt lang_list name full_url (Suc i) rest of
             (r, ev') \<Rightarrow> (r, ev @ ev')))"

text \<open>The body of the document loop.\<close>

definition process_document ::
  "(nat \<Rightarrow> ustr) \<Rightarrow> ('pg, 'img) services \<Rightarrow> ingest_args \<Rightarrow> rect4 option \<Rightarrow> ustr list
     \<Rightarrow> 'pg pdf_file \<Rightarrow> (error + unit) \<times> event list"
where
  "process_document lc svc args crop_rect_pt lang_list pdf =
     (let name = file_name pdf in
        (case upload_and_get_url lc svc (full_storage_path args name) name of
           (Inl e, ev) \<Rightarrow> (Inl e, Processing name # ev)
         | (Inr full_url, ev) \<Rightarrow>
             (let ev1 = Processing name # ev @ [Uploaded_full full_url] in
              case file_pages pdf of
                Inl msg \<Rightarrow> (Inl (ServiceError msg), ev1)
              | Inr pages \<Rightarrow>
                  (case pages_loop lc svc args crop_rect_pt lang_list name full_url 0 pages of
                     (r, ev') \<Rightarrow> (r, ev1 @ ev')))))"

fun documents_loop ::
  "(nat \<Rightarrow> ustr) \<Rightarrow> ('pg, 'img) services \<Rightarrow> ingest_args \<Rightarrow> rect4 option \<Rightarrow> ustr list
     \<Rightarrow> 'pg pdf_file list \<Rightarrow> (error + unit) \<times> event list"
where
  "documents_loop lc svc args crop_rect_pt lang_list [] = (Inr (), [])"
| "documents_loop lc svc args crop_rect_pt lang_list (pdf # rest) =
     (case process_document lc svc args crop_rect_pt lang_list pdf of
        (Inl e, ev) \<Rightarrow> (Inl e, ev)
      | (Inr _, ev) \<Rightarrow>
          (case documents_loop lc svc args crop_rect_pt lang_list rest of
             (r, ev') \<Rightarrow> (r, ev @ ev')))"

text \<open>
  The language hints \<open>lang_list\<close> and the sorted list \<open>pdf_files\<close> of \<open>main\<close>: the paths of
  one folder are ordered by their names, and strings by their code points.
\<close>

definition lang_list :: "ingest_args \<Rightarrow> ustr list" where
  "lang_list args = filter (\<lambda>s. s \<noteq> []) (map strip (split_on 44 (arg_langs args)))"

definition pdf_files :: "(nat \<Rightarrow> ustr) \<Rightarrow> 'pg pdf_file list \<Rightarrow> 'pg pdf_file list" where
  "pdf_files lc folder =
     sort_key file_name (filter (\<lambda>p. lower lc (path_suffix (file_name p)) = u ''.pdf'') folder)"

text \<open>
  \<open>main\<close>, for an input folder that exists and a complete environment: the crop
  rectangle, the language hints, the sorted PDF files of the folder, the document loop
  and the final \<open>Done.\<close>
\<close>

definition main ::
  "(nat \<Rightarrow> ustr) \<Rightarrow> (ustr \<Rightarrow> rat option) \<Rightarrow> ('pg, 'img) services \<Rightarrow> ingest_args
     \<Rightarrow> 'pg pdf_file list \<Rightarrow> (error + unit) \<times> event list"
where
  "main lc to_float svc args folder =
     (case convert_crop_units to_float (arg_ocr_crop args) (arg_units args) (arg_dpi args) of
        Inl e \<Rightarrow> (Inl e, [])
      | Inr crop_rect_pt \<Rightarrow>
          if pdf_files lc folder = [] then (Inl (SystemExit 1), [])
          else
            (case documents_loop lc svc args crop_rect_pt (lang_list args)
                    (pdf_files lc folder) of
               (Inl e, ev) \<Rightarrow> (Inl e, ev)
             | (Inr _, ev) \<Rightarrow> (Inr (), ev @ [Done])))"

text \<open>
  The exit code of the process: 0 when \<open>main\<close> returns, the argument of \<open>sys.exit\<close>, and
  1 for an exception that nothing catches.
\<close>

definition exit_code :: "(error + unit) \<Rightarrow> nat" where
  "exit_code r = (case r of Inr _ \<Rightarrow> 0 | Inl (SystemExit n) \<Rightarrow> n | Inl _ \<Rightarrow> 1)"

section \<open>Example inputs\<close>

text \<open>An A4 page, a wider page, and a crop rectangle to the right of the A4 page.\<close>

definition a4_page :: "unit crop_page" where
  "a4_page = \<lparr>page_rect = \<lparr>x0 = 0, y0 = 0, x1 = 595, y1 = 842\<rparr>, page_rotation = 0,
              page_content = ()\<rparr>"

definition wide_page :: "unit crop_page" where
  "wide_page = \<lparr>page_rect = \<lparr>x0 = 0, y0 = 0, x1 = 1000, y1 = 842\<rparr>, page_rotation = 0,
                page_content = ()\<rparr>"

definition right_crop_args :: crop_args where
  "right_crop_args =
     \<lparr>arg_x = 700, arg_y = 108, arg_w = Some 105, arg_h = Some 702, arg_x2 = None,
      arg_y2 = None, arg_page_start = 1, arg_page_end = None, arg_fmt = u ''png'',
      arg_respect_rotation = False\<rparr>"

text \<open>A table store that holds the given rows and never raises.\<close>

definition select_from :: "voter_row list \<Rightarrow> ustr \<Rightarrow> string + voter_row list option" where
  "select_from rows key = Inr (Some (filter (\<lambda>r. voter_id r = key) rows))"

text \<open>A crop of width zero, for the crop tool.\<close>

definition zero_width_crop_args :: crop_args where
  "zero_width_crop_args = right_crop_args\<lparr>arg_w := Some 0\<rparr>"

text \<open>
  A run of the pipeline with the default arguments. The pages of a file are numbered and
  the engine renders page \<open>n\<close> to the image \<open>n\<close>. In \<open>quota_services\<close> every upload and
  every insert succeeds, the public URL of a path is the path, and the Vision client
  answers with the error \<open>quota\<close> for image 2 and with the text \<open>WB/1/n\<close> for any other
  image \<open>n\<close>.
\<close>

definition default_args :: ingest_args where
  "default_args =
     \<lparr>arg_table = u ''2002_voter_details'', arg_storage_prefix = u ''voters'', arg_dpi = 200,
      arg_ocr_crop = [], arg_units = u ''pt'', arg_langs = u ''en'',
      arg_regex = default_regex_findall\<rparr>"

definition quota_services :: "(nat, nat) services" where
  "quota_services =
     \<lparr>storage_upload = (\<lambda>path content_type. None),
      get_public_url = (\<lambda>path. path),
      get_pixmap = (\<lambda>page zoom clip. Inr page),
      text_detection =
        (\<lambda>img hints.
           Inr (if img = 2
                then \<lparr>error_message = u ''quota'', full_text_annotation = [],
                      text_annotations = []\<rparr>
                else \<lparr>error_message = [], full_text_annotation = u ''WB/1/'' @ digits img,
                      text_annotations = []\<rparr>)),
      table_insert = (\<lambda>table rows. Inr None)\<rparr>"

text \<open>The same, with a table that answers every insert with an error object.\<close>

definition refusing_services :: "(nat, nat) services" where
  "refusing_services =
     quota_services\<lparr>table_insert := (\<lambda>table rows. Inr (Some (u ''denied'')))\<rparr>"

text \<open>The same, with a storage that refuses the upload of \<open>voters/a/a.pdf\<close>.\<close>

definition failing_upload_services :: "(nat, nat) services" where
  "failing_upload_services =
     quota_services\<lparr>storage_upload :=
       (\<lambda>path content_type. if path = u ''voters/a/a.pdf'' then Some ''upload refused''
                             else None)\<rparr>"

definition three_page_pdf :: "nat pdf_file" where
  "three_page_pdf = \<lparr>file_name = u ''a.pdf'', file_pages = Inr [1, 2, 3]\<rparr>"

definition one_page_pdf :: "nat pdf_file" where
  "one_page_pdf = \<lparr>file_name = u ''b.pdf'', file_pages = Inr [1]\<rparr>"

text \<open>The lower-case table of a run on ASCII names.\<close>

definition ascii_lc :: "nat \<Rightarrow> ustr" where
  "ascii_lc c = [c]"

section \<open>Properties\<close>

subsection \<open>Facts about the string functions\<close>

lemma allowed_not_slash: "allowed_char c \<Longrightarrow> c \<noteq> 47"
  by (auto simp: allowed_char_def is_upper_ascii_def is_digit_ascii_def)

lemma upper_cp_allowed: "allowed_char c \<Longrightarrow> upper_cp uc c = [c]"
  by (auto simp: allowed_char_def upper_cp_def is_upper_ascii_def is_digit_ascii_def is_lower_ascii_def)

lemma upper_allowed: "list_all allowed_char s \<Longrightarrow> upper uc s = s"
  by (induction s) (simp_all add: upper_def upper_cp_allowed)

lemma remove_char_allowed: "list_all allowed_char s \<Longrightarrow> remove_char 47 s = s"
  by (induction s) (auto simp: remove_char_def dest: allowed_not_slash)

lemma filter_allowed_id: "list_all allowed_char s \<Longrightarrow> filter allowed_char s = s"
  by (induction s) simp_all

lemma normalize_fixed:
  "list_all allowed_char s \<Longrightarrow> length s \<le> 40 \<Longrightarrow> normalize_voter_id uc s = s"
  by (simp add: normalize_voter_id_def remove_char_allowed upper_allowed filter_allowed_id)

lemma normalize_allowed: "list_all allowed_char (normalize_voter_id uc raw)"
  by (auto simp: normalize_voter_id_def list_all_iff dest: in_set_takeD)

lemma normalize_length: "length (normalize_voter_id uc raw) \<le> 40"
  by (simp add: normalize_voter_id_def)

lemma rstrip_Cons_keep: "\<not> is_space c \<Longrightarrow> rstrip (c # s) = c # rstrip s"
  by (simp add: rstrip_def dropWhile_append)

lemma rstrip_rstrip: "rstrip (rstrip s) = rstrip s"
  by (simp add: rstrip_def)

lemma lstrip_rstrip_lstrip: "lstrip (rstrip (lstrip s)) = rstrip (lstrip s)"
proof (cases "lstrip s")
  case Nil
  then have "rstrip (lstrip s) = []" by (simp add: rstrip_def)
  then show ?thesis by (simp add: lstrip_def)
next
  case (Cons c t)
  then have "\<not> is_space c"
    unfolding lstrip_def by (metis hd_dropWhile list.sel(1) list.distinct(1))
  then show ?thesis
    using Cons by (simp add: rstrip_Cons_keep) (simp add: lstrip_def)
qed

lemma strip_strip: "strip (strip s) = strip s"
  by (simp add: strip_def lstrip_rstrip_lstrip rstrip_rstrip)

lemma set_strip: "set (strip s) \<subseteq> set s"
proof -
  have "set (rstrip t) \<subseteq> set t" for t
    using set_dropWhileD [of _ is_space "rev t"] by (auto simp: rstrip_def)
  moreover have "set (lstrip s) \<subseteq> set s"
    by (auto simp: lstrip_def dest: set_dropWhileD)
  ultimately show ?thesis unfolding strip_def by blast
qed

lemma remove_char_strip_remove:
  "remove_char c (strip (remove_char c s)) = strip (remove_char c s)"
proof -
  have "\<forall>x \<in> set (strip (remove_char c s)). x \<noteq> c"
    using set_strip [of "remove_char c s"] by (auto simp: remove_char_def)
  then show ?thesis unfolding remove_char_def [of c "strip _"] by (simp add: filter_id_conv)
qed

lemma clean_idem: "clean_voter_id (clean_voter_id x) = clean_voter_id x"
  by (simp add: clean_voter_id_def remove_char_strip_remove strip_strip)

lemma allowed_match_iff:
  assumes "list_all allowed_char n" "length n \<le> 40"
  shows "VOTER_ID_ALLOWED_match n \<longleftrightarrow> 3 \<le> length n"
proof -
  have "last n \<noteq> 10" if "n \<noteq> []"
  proof -
    have "allowed_char (last n)" using assms(1) that by (simp add: list_all_iff)
    then show ?thesis by (auto simp: allowed_char_def is_upper_ascii_def is_digit_ascii_def)
  qed
  then show ?thesis using assms by (auto simp: VOTER_ID_ALLOWED_match_def)
qed

subsection \<open>Normalisation is idempotent\<close>

text \<open>
  C5: normalising an already normalised identifier changes nothing. This holds for the
  ingest-side \<open>clean_voter_id\<close> and for the query-side \<open>normalize_voter_id\<close>, for every
  string and whatever the Unicode upper-case table is.
\<close>

theorem normalization_idempotent:
  "clean_voter_id (clean_voter_id x) = clean_voter_id x \<and>
   normalize_voter_id uc (normalize_voter_id uc x) = normalize_voter_id uc x"
  by (simp add: clean_idem normalize_fixed normalize_allowed normalize_length)

subsection \<open>Ingest-side cleaning against query-side normalisation\<close>

text \<open>
  C3 does not hold of the code. The ingest side removes the separator and trims; the query
  side also upper-cases, keeps only \<open>[A-Z0-9]\<close> and caps the length. For the OCR line
  \<open>ab/12\<close> and the default pattern the pipeline stores \<open>ab12\<close>, the handler normalises
  the same raw identifier to \<open>AB12\<close>, and over a table holding the stored row the lookup
  answers 404.
\<close>

theorem lockstep_broken_on_lower_case:
  "extract_ids_from_lines default_regex_findall [u ''ab/12''] = [u ''ab12''] \<and>
   clean_voter_id (u ''ab/12'') = u ''ab12'' \<and>
   normalize_voter_id uc (u ''ab/12'') = u ''AB12'' \<and>
   search_voter uc
       (select_from [\<lparr>voter_id = u ''ab12'', single_page_pdf_link = u ''p'',
                      full_pdf_link = u ''f''\<rparr>])
       (u ''ab/12'')
     = Inl (HTTPException 404 ''Voter ID not found'')"
proof -
  have e: "extract_ids_from_lines default_regex_findall [u ''ab/12''] = [u ''ab12'']"
    by (simp add: extract_ids_from_lines_def cleaned_ids_def default_regex_findall_def
      default_regex_class_def u_def is_upper_ascii_def is_lower_ascii_def is_digit_ascii_def
      clean_voter_id_def strip_def lstrip_def rstrip_def is_space_def remove_char_def)
  have c: "clean_voter_id (u ''ab/12'') = u ''ab12''"
    by (simp add: u_def clean_voter_id_def strip_def lstrip_def rstrip_def is_space_def
        remove_char_def)
  have n: "normalize_voter_id uc (u ''ab/12'') = u ''AB12''"
    by (simp add: normalize_voter_id_def u_def upper_def upper_cp_def remove_char_def
      allowed_char_def is_upper_ascii_def is_lower_ascii_def is_digit_ascii_def)
  have m: "VOTER_ID_ALLOWED_match (u ''AB12'')"
    by (simp add: VOTER_ID_ALLOWED_match_def u_def allowed_char_def is_upper_ascii_def
        is_digit_ascii_def)
  have s: "search_voter uc
       (select_from [\<lparr>voter_id = u ''ab12'', single_page_pdf_link = u ''p'',
                      full_pdf_link = u ''f''\<rparr>])
       (u ''ab/12'')
     = Inl (HTTPException 404 ''Voter ID not found'')"
    using m by (simp add: search_voter_def n select_from_def) (simp add: u_def)
  from e c n s show ?thesis by blast
qed

subsection \<open>Extraction on the example lines\<close>

text \<open>
  C4 (as amended): for the lines \<open>AB/12\<close>, \<open>xx\<close>, \<open>AB12\<close>, \<open>CD/34\<close> and the default
  pattern, extraction yields \<open>AB12\<close>, \<open>xx\<close>, \<open>CD34\<close>: the second occurrence of \<open>AB12\<close> is
  dropped and the first-seen order is kept; \<open>xx\<close> is a run of letters, so the pattern
  matches it and it is part of the result.
\<close>

theorem extraction_example:
  "extract_ids_from_lines default_regex_findall [u ''AB/12'', u ''xx'', u ''AB12'', u ''CD/34'']
     = [u ''AB12'', u ''xx'', u ''CD34'']"
  by (simp add: extract_ids_from_lines_def cleaned_ids_def default_regex_findall_def
      default_regex_class_def u_def is_upper_ascii_def is_lower_ascii_def is_digit_ascii_def
      clean_voter_id_def strip_def lstrip_def rstrip_def is_space_def remove_char_def)

text \<open>The result is not the two-element list of the claim as stated.\<close>

theorem extraction_example_counterexample:
  "extract_ids_from_lines default_regex_findall [u ''AB/12'', u ''xx'', u ''AB12'', u ''CD/34'']
     \<noteq> [u ''AB12'', u ''CD34'']"
  by (simp add: extract_ids_from_lines_def cleaned_ids_def default_regex_findall_def
      default_regex_class_def u_def is_upper_ascii_def is_lower_ascii_def is_digit_ascii_def
      clean_voter_id_def strip_def lstrip_def rstrip_def is_space_def remove_char_def)

subsection \<open>Content types\<close>

lemma rfind_last_dot:
  assumes "46 \<notin> set ext"
  shows "rfind 46 (base @ 46 # ext) = Some (length base)"
proof -
  have "\<And>x. x \<in> set (rev ext) \<Longrightarrow> x \<noteq> 46" using assms by auto
  then have "takeWhile (\<lambda>x. x \<noteq> 46) (rev ext @ 46 # rev base)
               = rev ext @ takeWhile (\<lambda>x. x \<noteq> 46) (46 # rev base)"
    by (rule takeWhile_append2)
  then show ?thesis by (simp add: rfind_def)
qed

lemma path_suffix_ext:
  assumes "base \<noteq> []" "ext \<noteq> []" "46 \<notin> set ext"
  shows "path_suffix (base @ 46 # ext) = 46 # ext"
  using assms by (simp add: path_suffix_def rfind_last_dot)

lemma path_suffix_no_dot: "46 \<notin> set name \<Longrightarrow> path_suffix name = []"
  by (simp add: path_suffix_def rfind_def)

lemma path_suffix_leading_dot: "46 \<notin> set ext \<Longrightarrow> path_suffix (46 # ext) = []"
  using rfind_last_dot [of ext "[]"] by (simp add: path_suffix_def)

lemma path_suffix_trailing_dot: "path_suffix (base @ [46]) = []"
  using rfind_last_dot [of "[]" base] by (simp add: path_suffix_def)

lemma content_type_table:
  "content_type_of lc suffix =
     (if lower lc suffix = u ''.pdf'' then u ''application/pdf''
      else if lower lc suffix = u ''.png'' then u ''image/png''
      else if lower lc suffix = u ''.jpg'' then u ''image/jpeg''
      else if lower lc suffix = u ''.jpeg'' then u ''image/jpeg''
      else if lower lc suffix = u ''.tif'' then u ''image/tif''
      else if lower lc suffix = u ''.tiff'' then u ''image/tiff''
      else if lower lc suffix = u ''.bmp'' then u ''image/bmp''
      else if lower lc suffix = u ''.gif'' then u ''image/gif''
      else if lower lc suffix = u ''.webp'' then u ''image/webp''
      else u ''application/octet-stream'')"
  by (simp add: content_type_of_def raster_exts_def Let_def lstrip_dots_def u_def)

lemma lower_scan: "lower lc (u ''.JPG'') = u ''.jpg''"
  by (simp add: lower_def lower_cp_def is_upper_ascii_def u_def)

lemma lower_ascii:
  "(\<forall>c \<in> set s. c < 128) \<Longrightarrow>
   lower lc s = map (\<lambda>c. if 65 \<le> c \<and> c \<le> 90 then c + 32 else c) s"
  by (induction s) (simp_all add: lower_def lower_cp_def is_upper_ascii_def)

text \<open>
  C9: every upload declares the content type that the lower-cased extension of the file
  name decides, and records the file under it: \<open>.pdf\<close> gives \<open>application/pdf\<close>, each of
  the eight raster extensions gives its \<open>image/...\<close> type (\<open>.jpg\<close> gives \<open>image/jpeg\<close>), and
  every other extension, or none, gives \<open>application/octet-stream\<close>. The extension of a
  name is what follows its last dot, with the dot; a name without a dot, or whose last
  dot is its first or its last character, has none. Lower-casing an ASCII extension
  maps \<open>A\<close> to \<open>Z\<close> to \<open>a\<close> to \<open>z\<close> and keeps the rest.
\<close>

theorem content_type_by_extension:
  "upload_and_get_url lc svc storage_path local_name =
     (let ext = lower lc (path_suffix local_name);
          content_type =
            (if ext = u ''.pdf'' then u ''application/pdf''
             else if ext = u ''.png'' then u ''image/png''
             else if ext = u ''.jpg'' then u ''image/jpeg''
             else if ext = u ''.jpeg'' then u ''image/jpeg''
             else if ext = u ''.tif'' then u ''image/tif''
             else if ext = u ''.tiff'' then u ''image/tiff''
             else if ext = u ''.bmp'' then u ''image/bmp''
             else if ext = u ''.gif'' then u ''image/gif''
             else if ext = u ''.webp'' then u ''image/webp''
             else u ''application/octet-stream'')
      in case storage_upload svc storage_path content_type of
           Some msg \<Rightarrow> (Inl (ServiceError msg), [])
         | None \<Rightarrow> (Inr (get_public_url svc storage_path), [Stored storage_path content_type])) \<and>
   (base \<noteq> [] \<and> extension \<noteq> [] \<and> 46 \<notin> set extension \<longrightarrow>
      path_suffix (base @ 46 # extension) = 46 # extension) \<and>
   (46 \<notin> set local_name \<longrightarrow> path_suffix local_name = []) \<and>
   (46 \<notin> set extension \<longrightarrow> path_suffix (46 # extension) = []) \<and>
   path_suffix (base @ [46]) = [] \<and>
   ((\<forall>c \<in> set extension. c < 128) \<longrightarrow>
      lower lc extension = map (\<lambda>c. if 65 \<le> c \<and> c \<le> 90 then c + 32 else c) extension)"
proof -
  have "upload_and_get_url lc svc storage_path local_name =
     (case storage_upload svc storage_path (content_type_of lc (path_suffix local_name)) of
           Some msg \<Rightarrow> (Inl (ServiceError msg), [])
         | None \<Rightarrow> (Inr (get_public_url svc storage_path),
             [Stored storage_path (content_type_of lc (path_suffix local_name))]))"
    by (simp add: upload_and_get_url_def Let_def)
  then show ?thesis
    unfolding content_type_table Let_def
    using path_suffix_ext [of base extension] path_suffix_no_dot [of local_name]
      path_suffix_leading_dot [of extension] path_suffix_trailing_dot [of base]
      lower_ascii [of extension lc]
    by blast
qed

theorem content_type_by_extension_witness:
  "u ''scan'' \<noteq> [] \<and> u ''JPG'' \<noteq> [] \<and> 46 \<notin> set (u ''JPG'') \<and> 46 \<notin> set (u ''README'') \<and>
   path_suffix (u ''scan.JPG'') = u ''.JPG'' \<and>
   path_suffix (u ''README'') = [] \<and>
   lower ascii_lc (u ''JPG'') = u ''jpg'' \<and>
   upload_and_get_url ascii_lc quota_services (u ''voters/scan.JPG'') (u ''scan.JPG'')
     = (Inr (u ''voters/scan.JPG''), [Stored (u ''voters/scan.JPG'') (u ''image/jpeg'')]) \<and>
   upload_and_get_url ascii_lc quota_services (u ''voters/README'') (u ''README'')
     = (Inr (u ''voters/README''),
        [Stored (u ''voters/README'') (u ''application/octet-stream'')])"
proof -
  note t1 = content_type_by_extension
    [of ascii_lc quota_services "u ''voters/scan.JPG''" "u ''scan.JPG''" "u ''scan''" "u ''JPG''"]
  note t2 = content_type_by_extension
    [of ascii_lc quota_services "u ''voters/README''" "u ''README''" "u ''scan''" "u ''JPG''"]
  have a: "u ''scan'' \<noteq> [] \<and> u ''JPG'' \<noteq> [] \<and> 46 \<notin> set (u ''JPG'') \<and> 46 \<notin> set (u ''README'')"
    by (simp add: u_def)
  have e: "u ''scan'' @ 46 # u ''JPG'' = u ''scan.JPG''" by (simp add: u_def)
  have s1: "path_suffix (u ''scan.JPG'') = u ''.JPG''"
    using t1 a e by (simp add: u_def)
  have s2: "path_suffix (u ''README'') = []"
    using t2 a by simp
  have l0: "\<forall>c \<in> set (u ''JPG''). c < 128" by (simp add: u_def)
  have l1: "lower ascii_lc (u ''JPG'') = u ''jpg''"
    using t1 l0 by (simp add: u_def)
  have up: "storage_upload quota_services = (\<lambda>p c. None)"
     "get_public_url quota_services = (\<lambda>p. p)"
    by (simp_all add: quota_services_def)
  have r1: "upload_and_get_url ascii_lc quota_services (u ''voters/scan.JPG'') (u ''scan.JPG'')
     = (Inr (u ''voters/scan.JPG''), [Stored (u ''voters/scan.JPG'') (u ''image/jpeg'')])"
    using t1 s1 up by (simp add: lower_scan Let_def) (simp add: u_def)
  have r2: "upload_and_get_url ascii_lc quota_services (u ''voters/README'') (u ''README'')
     = (Inr (u ''voters/README''),
        [Stored (u ''voters/README'') (u ''application/octet-stream'')])"
    using t2 s2 up by (simp add: lower_def Let_def) (simp add: u_def)
  from a s1 s2 l1 r1 r2 show ?thesis by blast
qed

subsection \<open>Query-side validation\<close>

text \<open>
  C10: \<open>normalize_voter_id\<close> returns upper-case ASCII letters and digits only, at most 40
  of them; so the handler answers 400, \<open>Invalid voter_id format\<close>, exactly when the
  normalised identifier has fewer than 3 characters.
\<close>

theorem query_validation_is_length_check:
  "list_all allowed_char (normalize_voter_id uc raw) \<and>
   length (normalize_voter_id uc raw) \<le> 40 \<and>
   (search_voter uc select_eq raw = Inl (HTTPException 400 ''Invalid voter_id format'')
      \<longleftrightarrow> length (normalize_voter_id uc raw) < 3)"
proof -
  have m: "VOTER_ID_ALLOWED_match (normalize_voter_id uc raw)
             \<longleftrightarrow> 3 \<le> length (normalize_voter_id uc raw)"
    by (rule allowed_match_iff [OF normalize_allowed normalize_length])
  have "search_voter uc select_eq raw = Inl (HTTPException 400 ''Invalid voter_id format'')
          \<longleftrightarrow> \<not> VOTER_ID_ALLOWED_match (normalize_voter_id uc raw)"
    by (simp add: search_voter_def Let_def split: sum.splits option.splits)
  with m show ?thesis by (simp add: normalize_allowed normalize_length not_le)
qed

subsection \<open>The crop rectangle\<close>

lemma fields_nonempty: "crop_fields f s = [Some x, Some y, Some w, Some h] \<Longrightarrow> s \<noteq> []"
  by (auto simp: crop_fields_def)


lemma convert_px:
  assumes "crop_fields f s = [Some x, Some y, Some w, Some h]" "dpi \<noteq> 0"
  shows "convert_crop_units f s (u ''px'') dpi =
    Inr (Some (x * (72 / of_int dpi), y * (72 / of_int dpi),
       x * (72 / of_int dpi) + w * (72 / of_int dpi),
       y * (72 / of_int dpi) + h * (72 / of_int dpi)))"
  using assms fields_nonempty [OF assms(1)] by (simp add: convert_crop_units_def Let_def)



text \<open>
  C6: a pixel rectangle converted to points at a resolution \<open>dpi\<close> and scaled back by
  \<open>dpi / 72\<close> is the rectangle one started from, exactly, over the rationals. The
  resolution is not zero: at \<open>dpi = 0\<close> the conversion raises \<open>ZeroDivisionError\<close> and
  there is no rectangle to scale back.
\<close>

theorem px_round_trip:
  assumes "dpi \<noteq> 0"
    and "crop_fields to_float crop_str = [Some x, Some y, Some w, Some h]"
  shows "\<exists>x1 y1 x2 y2.
    convert_crop_units to_float crop_str (u ''px'') dpi = Inr (Some (x1, y1, x2, y2)) \<and>
    x1 = x * (72 / of_int dpi) \<and> y1 = y * (72 / of_int dpi) \<and>
    x2 - x1 = w * (72 / of_int dpi) \<and> y2 - y1 = h * (72 / of_int dpi) \<and>
    x1 * (of_int dpi / 72) = x \<and> y1 * (of_int dpi / 72) = y \<and>
    (x2 - x1) * (of_int dpi / 72) = w \<and> (y2 - y1) * (of_int dpi / 72) = h"
  unfolding convert_px [OF assms(2) assms(1)] using assms(1) by simp

theorem px_round_trip_witness:
  "(144::int) \<noteq> 0 \<and>
   crop_fields digits_float (u ''144, 72,72,144'') = [Some 144, Some 72, Some 72, Some 144] \<and>
   convert_crop_units digits_float (u ''144, 72,72,144'') (u ''px'') 144
     = Inr (Some (72, 36, 108, 108)) \<and>
   (72::rat) * (of_int 144 / 72) = 144 \<and> (36::rat) * (of_int 144 / 72) = 72 \<and>
   ((108::rat) - 72) * (of_int 144 / 72) = 72 \<and> ((108::rat) - 36) * (of_int 144 / 72) = 144"
proof -
  have f: "crop_fields digits_float (u ''144, 72,72,144'')
             = [Some 144, Some 72, Some 72, Some 144]"
    by (simp add: crop_fields_def u_def digits_float_def is_digit_ascii_def strip_def
        lstrip_def rstrip_def is_space_def)
  have d: "(144::int) \<noteq> 0" by simp
  from px_round_trip [OF d f] show ?thesis using f by auto
qed




subsection \<open>A crop rectangle outside the page\<close>

lemma outside_empty:
  assumes "\<not> rect_is_infinite c" "\<not> rect_is_infinite p"
    and "x1 c \<le> x0 p \<or> x1 p \<le> x0 c \<or> y1 c \<le> y0 p \<or> y1 p \<le> y0 c"
  shows "rect_is_empty (rect_and c p)"
  using assms by (auto simp: rect_and_def rect_is_empty_def min_def max_def)

lemma crop_one_page_skip:
  "rect_is_empty (rect_and crop_rect (page_rect page)) \<Longrightarrow>
   crop_one_page save_image args stem crop_rect n page saved = (Inr saved, [Warning_outside n])"
  by (simp add: crop_one_page_def)

lemma fmt_04d_Suc_Suc_0: "fmt_04d (Suc (Suc 0)) = u ''0002''"
  by code_simp

lemma crop_pages_prefix:
  "crop_pages sv args stem cr n pre s0 = (Inr s, evp) \<Longrightarrow>
   crop_pages sv args stem cr n (pre @ pages) s0
     = (case crop_pages sv args stem cr (n + length pre) pages s of (r, ev) \<Rightarrow> (r, evp @ ev))"
proof (induction pre arbitrary: n s0 evp)
  case Nil
  then show ?case by (simp split: prod.splits)
next
  case (Cons p pre)
  obtain r1 ev1 where p1: "crop_one_page sv args stem cr n p s0 = (r1, ev1)"
    by (cases "crop_one_page sv args stem cr n p s0")
  show ?case
  proof (cases r1)
    case (Inl e)
    with Cons.prems p1 show ?thesis by simp
  next
    case (Inr s1)
    obtain r2 ev2 where p2: "crop_pages sv args stem cr (Suc n) pre s1 = (r2, ev2)"
      by (cases "crop_pages sv args stem cr (Suc n) pre s1")
    from Cons.prems p1 Inr p2 have r2: "r2 = Inr s" and ev: "evp = ev1 @ ev2" by auto
    from Cons.IH [of "Suc n" s1 ev2] p2 r2
    have "crop_pages sv args stem cr (Suc n) (pre @ pages) s1
        = (case crop_pages sv args stem cr (Suc n + length pre) pages s of
             (r, ev) \<Rightarrow> (r, ev2 @ ev))" by simp
    with p1 Inr ev show ?thesis by (simp split: prod.splits)
  qed
qed

lemma crop_main_rejects:
  assumes "arg_w args = Some w" "arg_h args = Some h"
    and "max 1 (arg_page_start args)
           \<le> (case arg_page_end args of None \<Rightarrow> int (length doc)
               | Some e \<Rightarrow> min e (int (length doc)))"
    and "rect_is_empty \<lparr>x0 = arg_x args, y0 = arg_y args, x1 = arg_x args + w,
                         y1 = arg_y args + h\<rparr>
         \<or> rect_is_infinite \<lparr>x0 = arg_x args, y0 = arg_y args, x1 = arg_x args + w,
                              y1 = arg_y args + h\<rparr>"
  shows "crop_main sv args stem doc = (Inl (SystemExit 1), [])"
  using assms by (auto simp: crop_main_def Let_def)

lemma crop_main_loop:
  assumes "arg_w args = Some w" "arg_h args = Some h"
    and "max 1 (arg_page_start args)
           \<le> (case arg_page_end args of None \<Rightarrow> int (length doc)
               | Some e \<Rightarrow> min e (int (length doc)))"
    and "\<not> rect_is_empty \<lparr>x0 = arg_x args, y0 = arg_y args, x1 = arg_x args + w,
                         y1 = arg_y args + h\<rparr>"
    and "\<not> rect_is_infinite \<lparr>x0 = arg_x args, y0 = arg_y args, x1 = arg_x args + w,
                              y1 = arg_y args + h\<rparr>"
  shows "crop_main sv args stem doc =
    (case crop_pages sv args stem
            \<lparr>x0 = arg_x args, y0 = arg_y args, x1 = arg_x args + w, y1 = arg_y args + h\<rparr>
            (nat (max 1 (arg_page_start args)))
            (take (nat ((case arg_page_end args of None \<Rightarrow> int (length doc)
                         | Some e \<Rightarrow> min e (int (length doc))) + 1
                        - max 1 (arg_page_start args)))
               (drop (nat (max 1 (arg_page_start args) - 1)) doc)) 0 of
       (Inl e, ev) \<Rightarrow> (Inl e, ev)
     | (Inr saved, ev) \<Rightarrow> (Inr (), ev @ [Crop_done saved]))"
  using assms by (auto simp: crop_main_def Let_def)

text \<open>
  C8 (as amended), for the crop tool pdf\_crop.py and a crop rectangle given by its corner,
  width and height. A rectangle that is itself empty or infinite is rejected before any
  page is looked at: the tool exits with status 1. For every other rectangle and every
  page of the page range, the rectangle is intersected with the bounds of the page, and
  when the intersection is empty the page is skipped with a warning: nothing is rendered
  or written for it, whatever the engine would do, the counter of saved pages is
  unchanged, no exception is raised, and the run goes on with the next page as it would
  have without this one. A rectangle that lies entirely outside a page has an empty
  intersection with it.
\<close>

theorem crop_tool_skips_empty_intersection:
  assumes "arg_w args = Some w" and "arg_h args = Some h"
    and "cr = \<lparr>x0 = arg_x args, y0 = arg_y args, x1 = arg_x args + w, y1 = arg_y args + h\<rparr>"
    and "p_start = max 1 (arg_page_start args)"
    and "p_end = (case arg_page_end args of None \<Rightarrow> int (length doc)
                  | Some e \<Rightarrow> min e (int (length doc)))"
    and "p_start \<le> p_end"
  shows
   "(rect_is_empty cr \<or> rect_is_infinite cr \<longrightarrow>
       crop_main sv args stem doc = (Inl (SystemExit 1), [])) \<and>
    (\<not> rect_is_empty cr \<and> \<not> rect_is_infinite cr \<and>
     take (nat (p_end + 1 - p_start)) (drop (nat (p_start - 1)) doc) = pre @ page # rest \<and>
     crop_pages sv args stem cr (nat p_start) pre 0 = (Inr s, evp) \<and>
     rect_is_empty (rect_and cr (page_rect page)) \<longrightarrow>
       crop_one_page sv args stem cr (nat p_start + length pre) page s
         = (Inr s, [Warning_outside (nat p_start + length pre)]) \<and>
       crop_main sv args stem doc =
         (case crop_pages sv args stem cr (Suc (nat p_start + length pre)) rest s of
            (Inl e, ev) \<Rightarrow> (Inl e, evp @ Warning_outside (nat p_start + length pre) # ev)
          | (Inr saved, ev) \<Rightarrow>
              (Inr (), evp @ Warning_outside (nat p_start + length pre) # ev
                         @ [Crop_done saved]))) \<and>
    (\<not> rect_is_infinite cr \<and> \<not> rect_is_infinite (page_rect page) \<and>
     (x1 cr \<le> x0 (page_rect page) \<or> x1 (page_rect page) \<le> x0 cr \<or>
      y1 cr \<le> y0 (page_rect page) \<or> y1 (page_rect page) \<le> y0 cr) \<longrightarrow>
       rect_is_empty (rect_and cr (page_rect page)))"
proof (intro conjI impI)
  assume "rect_is_empty cr \<or> rect_is_infinite cr"
  then show "crop_main sv args stem doc = (Inl (SystemExit 1), [])"
    using assms crop_main_rejects [of args w h doc sv stem] by simp
next
  assume a: "\<not> rect_is_empty cr \<and> \<not> rect_is_infinite cr \<and>
     take (nat (p_end + 1 - p_start)) (drop (nat (p_start - 1)) doc) = pre @ page # rest \<and>
     crop_pages sv args stem cr (nat p_start) pre 0 = (Inr s, evp) \<and>
     rect_is_empty (rect_and cr (page_rect page))"
  then show "crop_one_page sv args stem cr (nat p_start + length pre) page s
         = (Inr s, [Warning_outside (nat p_start + length pre)])"
    by (simp add: crop_one_page_skip)
next
  assume a: "\<not> rect_is_empty cr \<and> \<not> rect_is_infinite cr \<and>
     take (nat (p_end + 1 - p_start)) (drop (nat (p_start - 1)) doc) = pre @ page # rest \<and>
     crop_pages sv args stem cr (nat p_start) pre 0 = (Inr s, evp) \<and>
     rect_is_empty (rect_and cr (page_rect page))"
  then have pre: "crop_pages sv args stem cr (nat p_start) pre 0 = (Inr s, evp)"
    and e: "rect_is_empty (rect_and cr (page_rect page))"
    and sel: "take (nat (p_end + 1 - p_start)) (drop (nat (p_start - 1)) doc) = pre @ page # rest"
    by simp_all
  have loop: "crop_pages sv args stem cr (nat p_start) (pre @ page # rest) 0
     = (case crop_pages sv args stem cr (Suc (nat p_start + length pre)) rest s of
          (r, ev) \<Rightarrow> (r, evp @ Warning_outside (nat p_start + length pre) # ev))"
    unfolding crop_pages_prefix [OF pre]
    by (simp add: crop_one_page_skip [OF e] split: prod.splits)
  have m: "crop_main sv args stem doc =
    (case crop_pages sv args stem cr (nat p_start) (pre @ page # rest) 0 of
       (Inl e, ev) \<Rightarrow> (Inl e, ev)
     | (Inr saved, ev) \<Rightarrow> (Inr (), ev @ [Crop_done saved]))"
    using crop_main_loop [of args w h doc sv stem] assms a by simp
  show "crop_main sv args stem doc =
         (case crop_pages sv args stem cr (Suc (nat p_start + length pre)) rest s of
            (Inl e, ev) \<Rightarrow> (Inl e, evp @ Warning_outside (nat p_start + length pre) # ev)
          | (Inr saved, ev) \<Rightarrow>
              (Inr (), evp @ Warning_outside (nat p_start + length pre) # ev
                         @ [Crop_done saved]))"
    unfolding m loop by (simp split: prod.splits sum.splits)
next
  assume "\<not> rect_is_infinite cr \<and> \<not> rect_is_infinite (page_rect page) \<and>
     (x1 cr \<le> x0 (page_rect page) \<or> x1 (page_rect page) \<le> x0 cr \<or>
      y1 cr \<le> y0 (page_rect page) \<or> y1 (page_rect page) \<le> y0 cr)"
  then show "rect_is_empty (rect_and cr (page_rect page))"
    by (simp add: outside_empty)
qed

theorem crop_tool_skips_empty_intersection_witness:
  "crop_main (\<lambda>pg rot clip out. None) zero_width_crop_args (u ''doc'') [a4_page, wide_page]
     = (Inl (SystemExit 1), []) \<and>
   rect_is_empty (rect_and \<lparr>x0 = 700, y0 = 108, x1 = 805, y1 = 810\<rparr> (page_rect a4_page)) \<and>
   crop_one_page (\<lambda>pg rot clip out. None) right_crop_args (u ''doc'')
       \<lparr>x0 = 700, y0 = 108, x1 = 805, y1 = 810\<rparr> 1 a4_page 0
     = (Inr 0, [Warning_outside 1]) \<and>
   crop_main (\<lambda>pg rot clip out. None) right_crop_args (u ''doc'') [a4_page, wide_page]
     = (Inr (), [Warning_outside 1, Saved_crop (u ''doc_p0002_crop.png''),
                 Saved_full (u ''doc_p0002_full.png''), Crop_done 1])"
proof -
  let ?sv = "\<lambda>(pg::unit) (rot::bool) (clip::rect option) (out::ustr). None :: string option"
  let ?c = "\<lparr>x0 = 700, y0 = 108, x1 = 805, y1 = 810\<rparr> :: rect"
  let ?z = "\<lparr>x0 = 700, y0 = 108, x1 = 700, y1 = 810\<rparr> :: rect"
  let ?doc = "[a4_page, wide_page]"
  have z1: "arg_w zero_width_crop_args = Some 0" and z2: "arg_h zero_width_crop_args = Some 702"
    and z3: "?z = \<lparr>x0 = arg_x zero_width_crop_args, y0 = arg_y zero_width_crop_args,
                     x1 = arg_x zero_width_crop_args + 0, y1 = arg_y zero_width_crop_args + 702\<rparr>"
    and z4: "(1::int) = max 1 (arg_page_start zero_width_crop_args)"
    and z5: "(2::int) = (case arg_page_end zero_width_crop_args of None \<Rightarrow> int (length ?doc)
                         | Some e \<Rightarrow> min e (int (length ?doc)))"
    and h6: "(1::int) \<le> 2"
    by (simp_all add: zero_width_crop_args_def right_crop_args_def)
  have ze: "rect_is_empty ?z \<or> rect_is_infinite ?z" by (simp add: rect_is_empty_def)
  from crop_tool_skips_empty_intersection
         [where sv = ?sv and stem = "u ''doc''" and pre = "[]" and page = a4_page
            and rest = "[wide_page]" and s = 0 and evp = "[]", OF z1 z2 z3 z4 z5 h6] ze
  have r0: "crop_main ?sv zero_width_crop_args (u ''doc'') ?doc = (Inl (SystemExit 1), [])"
    by blast
  have h1: "arg_w right_crop_args = Some 105" and h2: "arg_h right_crop_args = Some 702"
    and h3: "?c = \<lparr>x0 = arg_x right_crop_args, y0 = arg_y right_crop_args,
                     x1 = arg_x right_crop_args + 105, y1 = arg_y right_crop_args + 702\<rparr>"
    and h4: "(1::int) = max 1 (arg_page_start right_crop_args)"
    and h5: "(2::int) = (case arg_page_end right_crop_args of None \<Rightarrow> int (length ?doc)
                         | Some e \<Rightarrow> min e (int (length ?doc)))"
    by (simp_all add: right_crop_args_def)
  have c1: "\<not> rect_is_empty ?c" and c2: "\<not> rect_is_infinite ?c"
    by (simp_all add: rect_is_empty_def rect_is_infinite_def)
  have c3: "take (nat (2 + 1 - 1)) (drop (nat (1 - 1)) ?doc) = [] @ a4_page # [wide_page]"
    by simp
  have c4: "crop_pages ?sv right_crop_args (u ''doc'') ?c (nat 1) [] 0 = (Inr 0, [])"
    by simp
  have e: "rect_is_empty (rect_and ?c (page_rect a4_page))"
    by (simp add: rect_and_def rect_is_empty_def rect_is_infinite_def a4_page_def)
  from crop_tool_skips_empty_intersection
         [where sv = ?sv and stem = "u ''doc''" and pre = "[]" and page = a4_page
            and rest = "[wide_page]" and s = 0 and evp = "[]", OF h1 h2 h3 h4 h5 h6]
       c1 c2 c3 c4 e
  have both:
    "crop_one_page ?sv right_crop_args (u ''doc'') ?c (nat 1 + length ([]::unit crop_page list))
         a4_page 0
       = (Inr 0, [Warning_outside (nat 1 + length ([]::unit crop_page list))]) \<and>
     crop_main ?sv right_crop_args (u ''doc'') ?doc =
       (case crop_pages ?sv right_crop_args (u ''doc'') ?c
               (Suc (nat 1 + length ([]::unit crop_page list))) [wide_page] 0 of
          (Inl e, ev) \<Rightarrow>
            (Inl e, [] @ Warning_outside (nat 1 + length ([]::unit crop_page list)) # ev)
        | (Inr saved, ev) \<Rightarrow>
            (Inr (), [] @ Warning_outside (nat 1 + length ([]::unit crop_page list)) # ev
                       @ [Crop_done saved]))"
    by blast
  have two: "crop_pages ?sv right_crop_args (u ''doc'') ?c
               (Suc (nat 1 + length ([]::unit crop_page list))) [wide_page] 0
     = (Inr 1, [Saved_crop (u ''doc_p0002_crop.png''), Saved_full (u ''doc_p0002_full.png'')])"
    by (simp add: crop_one_page_def rect_and_def rect_is_empty_def rect_is_infinite_def
        wide_page_def right_crop_args_def fmt_04d_Suc_Suc_0 u_def)
  have one: "crop_one_page ?sv right_crop_args (u ''doc'') ?c 1 a4_page 0
     = (Inr 0, [Warning_outside 1])"
    using both by simp
  have m: "crop_main ?sv right_crop_args (u ''doc'') ?doc
     = (Inr (), [Warning_outside 1, Saved_crop (u ''doc_p0002_crop.png''),
                 Saved_full (u ''doc_p0002_full.png''), Crop_done 1])"
    using both unfolding two by simp
  from r0 e one m show ?thesis by blast
qed

text \<open>
  The claim as stated, for every supplied rectangle and every page, fails. A rectangle of
  width zero has an empty intersection with every page, and the crop tool does not skip:
  it exits with status 1. And in the ingestion pipeline \<open>render_page_for_ocr\<close> receives a
  rectangle outside the page and the engine is called with that rectangle as the clip:
  the result is the image of the engine or the exception of the engine, not a skipped
  rendering.
\<close>

theorem empty_intersection_skip_counterexample:
  "rect_is_empty (rect_and \<lparr>x0 = 700, y0 = 108, x1 = 700, y1 = 810\<rparr> (page_rect a4_page)) \<and>
   crop_main (\<lambda>pg rot clip out. None) zero_width_crop_args (u ''doc'') [a4_page]
     = (Inl (SystemExit 1), []) \<and>
   rect_is_empty (rect_and \<lparr>x0 = 700, y0 = 108, x1 = 805, y1 = 810\<rparr> (page_rect a4_page)) \<and>
   render_page_for_ocr (\<lambda>page zoom clip. Inr (page, zoom, clip)) a4_page 72
       (Some (700, 108, 805, 810))
     = Inr (a4_page, 1, Some \<lparr>x0 = 700, y0 = 108, x1 = 805, y1 = 810\<rparr>) \<and>
   render_page_for_ocr (\<lambda>page zoom clip. Inl ''clip outside the page'' :: string + unit)
       a4_page 72 (Some (700, 108, 805, 810))
     = Inl (ServiceError ''clip outside the page'')"
  by (simp add: render_page_for_ocr_def rect_and_def rect_is_empty_def rect_is_infinite_def
      a4_page_def crop_main_def zero_width_crop_args_def right_crop_args_def)

subsection \<open>Failures in the ingestion run\<close>

text \<open>
  Pages and documents that went through without an exception can be split off the loops.
\<close>

lemma pages_loop_prefix:
  "pages_loop lc svc args crop langs name full_url i pre = (Inr (), evp) \<Longrightarrow>
   pages_loop lc svc args crop langs name full_url i (pre @ pages)
     = (case pages_loop lc svc args crop langs name full_url (i + length pre) pages of
          (r, ev) \<Rightarrow> (r, evp @ ev))"
proof (induction pre arbitrary: i evp)
  case Nil
  then show ?case by (simp split: prod.splits)
next
  case (Cons p pre)
  obtain r1 ev1 where p1: "process_page lc svc args crop langs name full_url i p = (r1, ev1)"
    by (cases "process_page lc svc args crop langs name full_url i p")
  show ?case
  proof (cases r1)
    case (Inl e)
    with Cons.prems p1 show ?thesis by simp
  next
    case (Inr x)
    obtain r2 ev2
      where p2: "pages_loop lc svc args crop langs name full_url (Suc i) pre = (r2, ev2)"
      by (cases "pages_loop lc svc args crop langs name full_url (Suc i) pre")
    from Cons.prems p1 Inr p2 have r2: "r2 = Inr ()" and ev: "evp = ev1 @ ev2" by auto
    from Cons.IH [of "Suc i" ev2] p2 r2
    have "pages_loop lc svc args crop langs name full_url (Suc i) (pre @ pages)
        = (case pages_loop lc svc args crop langs name full_url (Suc i + length pre) pages of
             (r, ev) \<Rightarrow> (r, ev2 @ ev))" by simp
    with p1 Inr ev show ?thesis by (simp split: prod.splits)
  qed
qed

lemma documents_loop_prefix:
  "documents_loop lc svc args crop langs pre = (Inr (), evd) \<Longrightarrow>
   documents_loop lc svc args crop langs (pre @ docs)
     = (case documents_loop lc svc args crop langs docs of (r, ev) \<Rightarrow> (r, evd @ ev))"
proof (induction pre arbitrary: evd)
  case Nil
  then show ?case by (simp split: prod.splits)
next
  case (Cons p pre)
  obtain r1 ev1 where p1: "process_document lc svc args crop langs p = (r1, ev1)"
    by (cases "process_document lc svc args crop langs p")
  show ?case
  proof (cases r1)
    case (Inl e)
    with Cons.prems p1 show ?thesis by simp
  next
    case (Inr x)
    obtain r2 ev2 where p2: "documents_loop lc svc args crop langs pre = (r2, ev2)"
      by (cases "documents_loop lc svc args crop langs pre")
    from Cons.prems p1 Inr p2 have r2: "r2 = Inr ()" and ev: "evd = ev1 @ ev2" by auto
    from Cons.IH [of ev2] p2 r2
    have "documents_loop lc svc args crop langs (pre @ docs)
        = (case documents_loop lc svc args crop langs docs of (r, ev) \<Rightarrow> (r, ev2 @ ev))"
      by simp
    with p1 Inr ev show ?thesis by (simp split: prod.splits)
  qed
qed

lemma main_stops_at_failing_document:
  assumes conv: "convert_crop_units to_float (arg_ocr_crop args) (arg_units args) (arg_dpi args)
                   = Inr crop"
    and files: "pdf_files lc folder = done_docs @ pdf # later_docs"
    and docs: "documents_loop lc svc args crop (lang_list args) done_docs = (Inr (), evd)"
    and doc: "process_document lc svc args crop (lang_list args) pdf = (Inl e, ev)"
  shows "main lc to_float svc args folder = (Inl e, evd @ ev)"
proof -
  have "documents_loop lc svc args crop (lang_list args) (done_docs @ pdf # later_docs)
          = (Inl e, evd @ ev)"
    unfolding documents_loop_prefix [OF docs] using doc by simp
  then show ?thesis using conv files by (simp add: main_def)
qed

lemma main_stops_at_failing_page:
  assumes conv: "convert_crop_units to_float (arg_ocr_crop args) (arg_units args) (arg_dpi args)
                   = Inr crop"
    and files: "pdf_files lc folder = done_docs @ pdf # later_docs"
    and docs: "documents_loop lc svc args crop (lang_list args) done_docs = (Inr (), evd)"
    and full: "upload_and_get_url lc svc (full_storage_path args (file_name pdf)) (file_name pdf)
                 = (Inr full_url, evf)"
    and pages: "file_pages pdf = Inr (pre @ page # rest)"
    and pre: "pages_loop lc svc args crop (lang_list args) (file_name pdf) full_url 0 pre
                = (Inr (), evp)"
    and pp: "process_page lc svc args crop (lang_list args) (file_name pdf) full_url
               (length pre) page = (Inl e, ev)"
  shows "main lc to_float svc args folder
           = (Inl e, evd @ Processing (file_name pdf) # evf @ [Uploaded_full full_url] @ evp @ ev)"
proof -
  have "pages_loop lc svc args crop (lang_list args) (file_name pdf) full_url 0
          (pre @ page # rest) = (Inl e, evp @ ev)"
    unfolding pages_loop_prefix [OF pre] using pp by simp
  then have "process_document lc svc args crop (lang_list args) pdf
          = (Inl e, Processing (file_name pdf) # evf @ [Uploaded_full full_url] @ evp @ ev)"
    using full pages by (simp add: process_document_def Let_def)
  from main_stops_at_failing_document [OF conv files docs this] show ?thesis by simp
qed

lemma ocr_error_exit_code:
  "ocr_image_texts td img langs = Inl e \<Longrightarrow> exit_code (Inl e) = 1"
  by (auto simp: ocr_image_texts_def exit_code_def split: sum.splits if_splits list.splits)

lemma render_error_exit_code:
  "render_page_for_ocr px page dpi crop = Inl e \<Longrightarrow> exit_code (Inl e) = 1"
  by (auto simp: render_page_for_ocr_def exit_code_def Let_def split: sum.splits)

text \<open>The example run, step by step.\<close>

lemma fmt_04d_Suc_0: "fmt_04d (Suc 0) = u ''0001''"
  by code_simp

lemma default_conv:
  "convert_crop_units digits_float (arg_ocr_crop default_args) (arg_units default_args)
     (arg_dpi default_args) = Inr None"
  by (simp add: default_args_def convert_crop_units_def)

lemma default_langs: "lang_list default_args = [u ''en'']"
  by (simp add: lang_list_def default_args_def u_def strip_def lstrip_def rstrip_def
      is_space_def)

lemma suffix_a: "path_suffix (u ''a.pdf'') = u ''.pdf''"
  using path_suffix_ext [of "u ''a''" "u ''pdf''"] by (simp add: u_def)

lemma suffix_b: "path_suffix (u ''b.pdf'') = u ''.pdf''"
  using path_suffix_ext [of "u ''b''" "u ''pdf''"] by (simp add: u_def)

lemma stem_a: "path_stem (u ''a.pdf'') = u ''a''"
  using rfind_last_dot [of "u ''pdf''" "u ''a''"] by (simp add: path_stem_def u_def)

lemma stem_b: "path_stem (u ''b.pdf'') = u ''b''"
  using rfind_last_dot [of "u ''pdf''" "u ''b''"] by (simp add: path_stem_def u_def)

lemma lower_pdf: "lower lc (u ''.pdf'') = u ''.pdf''"
  by (simp add: lower_def lower_cp_def is_upper_ascii_def u_def)

lemma pdf_content_type: "content_type_of lc (u ''.pdf'') = u ''application/pdf''"
  by (simp add: content_type_table lower_pdf)

lemma files_a: "pdf_files ascii_lc [three_page_pdf] = [three_page_pdf]"
  by (simp add: pdf_files_def three_page_pdf_def suffix_a lower_pdf)

lemma files_ba:
  "pdf_files ascii_lc [one_page_pdf, three_page_pdf] = [three_page_pdf, one_page_pdf]"
  by (simp add: pdf_files_def three_page_pdf_def one_page_pdf_def suffix_a suffix_b lower_pdf)
    (simp add: u_def)

lemma full_path_a: "full_storage_path default_args (u ''a.pdf'') = u ''voters/a/a.pdf''"
  by (simp add: full_storage_path_def default_args_def stem_a strip_slashes_def)
    (simp add: u_def)

lemma full_path_b: "full_storage_path default_args (u ''b.pdf'') = u ''voters/b/b.pdf''"
  by (simp add: full_storage_path_def default_args_def stem_b strip_slashes_def)
    (simp add: u_def)

lemma single_name_a:
  "single_local_name (u ''a.pdf'') (Suc 0) = u ''a_p0001.pdf''"
  "single_local_name (u ''a.pdf'') (Suc (Suc 0)) = u ''a_p0002.pdf''"
  by (simp_all add: single_local_name_def stem_a fmt_04d_Suc_0 fmt_04d_Suc_Suc_0)
    (simp_all add: u_def)

lemma single_path_a:
  "single_storage_path default_args (u ''a.pdf'') (Suc 0) = u ''voters/a/pages/a_p0001.pdf''"
  "single_storage_path default_args (u ''a.pdf'') (Suc (Suc 0))
     = u ''voters/a/pages/a_p0002.pdf''"
  by (simp_all add: single_storage_path_def single_name_a default_args_def stem_a
      strip_slashes_def) (simp_all add: u_def)

lemma single_name_b: "single_local_name (u ''b.pdf'') (Suc 0) = u ''b_p0001.pdf''"
  by (simp add: single_local_name_def stem_b fmt_04d_Suc_0) (simp add: u_def)

lemma single_path_b:
  "single_storage_path default_args (u ''b.pdf'') (Suc 0) = u ''voters/b/pages/b_p0001.pdf''"
  by (simp add: single_storage_path_def single_name_b default_args_def stem_b
      strip_slashes_def) (simp add: u_def)

lemma suffix_single:
  "path_suffix (u ''a_p0001.pdf'') = u ''.pdf''"
  "path_suffix (u ''a_p0002.pdf'') = u ''.pdf''"
  "path_suffix (u ''b_p0001.pdf'') = u ''.pdf''"
  using path_suffix_ext [of "u ''a_p0001''" "u ''pdf''"]
    path_suffix_ext [of "u ''a_p0002''" "u ''pdf''"]
    path_suffix_ext [of "u ''b_p0001''" "u ''pdf''"]
  by (simp_all add: u_def)

lemma quota_upload:
  "path_suffix name = u ''.pdf'' \<Longrightarrow>
   upload_and_get_url lc quota_services path name
     = (Inr path, [Stored path (u ''application/pdf'')])"
  "path_suffix name = u ''.pdf'' \<Longrightarrow>
   upload_and_get_url lc refusing_services path name
     = (Inr path, [Stored path (u ''application/pdf'')])"
  by (simp_all add: upload_and_get_url_def pdf_content_type quota_services_def
      refusing_services_def)

lemma quota_render:
  "render_page_for_ocr (get_pixmap quota_services) page dpi crop = Inr page"
  "render_page_for_ocr (get_pixmap refusing_services) page dpi crop = Inr page"
  by (simp_all add: render_page_for_ocr_def quota_services_def refusing_services_def)

lemma quota_ocr_1:
  "ocr_image_texts (text_detection quota_services) (Suc 0) langs = Inr [u ''WB/1/1'']"
  "ocr_image_texts (text_detection refusing_services) (Suc 0) langs = Inr [u ''WB/1/1'']"
  by (simp_all add: ocr_image_texts_def quota_services_def refusing_services_def text_lines_def
      splitlines_def u_def strip_def lstrip_def rstrip_def is_space_def is_linebreak_def)

lemma quota_ocr_2:
  "ocr_image_texts (text_detection quota_services) (2::nat) langs
     = Inl (RuntimeError
         (u ''Vision API error: quota'' @ [10] @
          u ''Check billing/quotas/permissions and GOOGLE_APPLICATION_CREDENTIALS.''))"
  by (simp add: ocr_image_texts_def quota_services_def) (simp add: u_def)

lemma extract_wb: "extract_ids_from_lines (arg_regex default_args) [u ''WB/1/1''] = [u ''WB11'']"
  by (simp add: default_args_def extract_ids_from_lines_def cleaned_ids_def
      default_regex_findall_def default_regex_class_def u_def is_upper_ascii_def
      is_lower_ascii_def is_digit_ascii_def clean_voter_id_def strip_def lstrip_def rstrip_def
      is_space_def remove_char_def)

lemma quota_insert:
  "table_insert quota_services table rows = Inr None"
  "table_insert refusing_services table rows = Inr (Some (u ''denied''))"
  by (simp_all add: quota_services_def refusing_services_def)

lemma default_table: "arg_table default_args = u ''2002_voter_details''"
  by (simp add: default_args_def)

lemma quota_page_1:
  "process_page ascii_lc quota_services default_args None [u ''en''] (u ''a.pdf'')
     (u ''voters/a/a.pdf'') 0 1
   = (Inr (),
      [Stored (u ''voters/a/pages/a_p0001.pdf'') (u ''application/pdf''),
       Uploaded_single 1 (u ''voters/a/pages/a_p0001.pdf''),
       Rows_inserted (u ''2002_voter_details'')
         [\<lparr>voter_id = u ''WB11'', single_page_pdf_link = u ''voters/a/pages/a_p0001.pdf'',
           full_pdf_link = u ''voters/a/a.pdf''\<rparr>],
       Inserted 1 1])"
  by (simp add: process_page_def single_name_a single_path_a quota_upload suffix_single
      quota_render quota_ocr_1 extract_wb quota_insert default_table)

lemma quota_page_2:
  "process_page ascii_lc quota_services default_args None [u ''en''] (u ''a.pdf'')
     (u ''voters/a/a.pdf'') 1 2
   = (Inl (RuntimeError
         (u ''Vision API error: quota'' @ [10] @
          u ''Check billing/quotas/permissions and GOOGLE_APPLICATION_CREDENTIALS.'')),
      [Stored (u ''voters/a/pages/a_p0002.pdf'') (u ''application/pdf''),
       Uploaded_single 2 (u ''voters/a/pages/a_p0002.pdf'')])"
  by (simp add: process_page_def single_name_a single_path_a quota_upload suffix_single
      quota_render quota_ocr_2)

lemma name_a: "file_name three_page_pdf = u ''a.pdf''"
  and pages_a: "file_pages three_page_pdf = Inr [1, 2, 3]"
  and name_b: "file_name one_page_pdf = u ''b.pdf''"
  and pages_b: "file_pages one_page_pdf = Inr [1]"
  by (simp_all add: three_page_pdf_def one_page_pdf_def)

text \<open>
  C1 (as amended). Nothing in the loops of \<open>main\<close> catches an exception. When the render
  or the OCR stage of a page raises (an OCR answer that carries an error is raised as
  \<open>RuntimeError\<close>), or the insert call raises, the run ends there with that exception: the
  documents and pages before it keep their effects, the page has its single-page upload
  and nothing more, no later page and no later document is processed, and the exit code
  is 1. Only an insert that returns a response with an error is local to the page: the
  error is logged and the loop goes on with the next page.
\<close>

theorem page_failures_end_the_run:
  assumes conv: "convert_crop_units to_float (arg_ocr_crop args) (arg_units args) (arg_dpi args)
                   = Inr crop"
    and files: "pdf_files lc folder = done_docs @ pdf # later_docs"
    and docs: "documents_loop lc svc args crop (lang_list args) done_docs = (Inr (), evd)"
    and full: "upload_and_get_url lc svc (full_storage_path args (file_name pdf)) (file_name pdf)
                 = (Inr full_url, evf)"
    and pages: "file_pages pdf = Inr (pre @ page # rest)"
    and pre: "pages_loop lc svc args crop (lang_list args) (file_name pdf) full_url 0 pre
                = (Inr (), evp)"
    and up: "upload_and_get_url lc svc
               (single_storage_path args (file_name pdf) (length pre + 1))
               (single_local_name (file_name pdf) (length pre + 1)) = (Inr single_url, evu)"
  shows
   "(render_page_for_ocr (get_pixmap svc) page (arg_dpi args) crop = Inl e \<or>
     render_page_for_ocr (get_pixmap svc) page (arg_dpi args) crop = Inr img \<and>
     ocr_image_texts (text_detection svc) img (lang_list args) = Inl e \<longrightarrow>
       main lc to_float svc args folder
         = (Inl e, evd @ Processing (file_name pdf) # evf @ [Uploaded_full full_url] @ evp @ evu
                     @ [Uploaded_single (length pre + 1) single_url]) \<and>
       exit_code (fst (main lc to_float svc args folder)) = 1) \<and>
    (render_page_for_ocr (get_pixmap svc) page (arg_dpi args) crop = Inr img \<and>
     ocr_image_texts (text_detection svc) img (lang_list args) = Inr lines \<and>
     extract_ids_from_lines (arg_regex args) lines \<noteq> [] \<and>
     table_insert svc (arg_table args)
       (map (\<lambda>vid. \<lparr>voter_id = vid, single_page_pdf_link = single_url,
                     full_pdf_link = full_url\<rparr>)
          (extract_ids_from_lines (arg_regex args) lines)) = Inl msg \<longrightarrow>
       main lc to_float svc args folder
         = (Inl (ServiceError msg),
            evd @ Processing (file_name pdf) # evf @ [Uploaded_full full_url] @ evp @ evu
              @ [Uploaded_single (length pre + 1) single_url]) \<and>
       exit_code (fst (main lc to_float svc args folder)) = 1) \<and>
    (render_page_for_ocr (get_pixmap svc) page (arg_dpi args) crop = Inr img \<and>
     ocr_image_texts (text_detection svc) img (lang_list args) = Inr lines \<and>
     extract_ids_from_lines (arg_regex args) lines \<noteq> [] \<and>
     table_insert svc (arg_table args)
       (map (\<lambda>vid. \<lparr>voter_id = vid, single_page_pdf_link = single_url,
                     full_pdf_link = full_url\<rparr>)
          (extract_ids_from_lines (arg_regex args) lines)) = Inr (Some err) \<longrightarrow>
       pages_loop lc svc args crop (lang_list args) (file_name pdf) full_url 0
           (pre @ page # rest)
         = (case pages_loop lc svc args crop (lang_list args) (file_name pdf) full_url
                   (Suc (length pre)) rest of
              (r, ev) \<Rightarrow>
                (r, evp @ evu @ [Uploaded_single (length pre + 1) single_url, Insert_error err]
                      @ ev)))"
proof (intro conjI impI)
  let ?E = "evu @ [Uploaded_single (length pre + 1) single_url]"
  note stop = main_stops_at_failing_page [OF conv files docs full pages pre]
  {
    assume a: "render_page_for_ocr (get_pixmap svc) page (arg_dpi args) crop = Inl e \<or>
       render_page_for_ocr (get_pixmap svc) page (arg_dpi args) crop = Inr img \<and>
       ocr_image_texts (text_detection svc) img (lang_list args) = Inl e"
    then have pp: "process_page lc svc args crop (lang_list args) (file_name pdf) full_url
               (length pre) page = (Inl e, ?E)"
      using up by (auto simp: process_page_def Let_def)
    from a have x: "exit_code (Inl e) = 1"
      by (auto dest: ocr_error_exit_code render_error_exit_code)
    from stop [OF pp]
    show m1: "main lc to_float svc args folder
         = (Inl e, evd @ Processing (file_name pdf) # evf @ [Uploaded_full full_url] @ evp @ evu
                     @ [Uploaded_single (length pre + 1) single_url])" by simp
    show "exit_code (fst (main lc to_float svc args folder)) = 1"
      unfolding m1 using x by simp
  }
  {
    assume a: "render_page_for_ocr (get_pixmap svc) page (arg_dpi args) crop = Inr img \<and>
     ocr_image_texts (text_detection svc) img (lang_list args) = Inr lines \<and>
     extract_ids_from_lines (arg_regex args) lines \<noteq> [] \<and>
     table_insert svc (arg_table args)
       (map (\<lambda>vid. \<lparr>voter_id = vid, single_page_pdf_link = single_url,
                     full_pdf_link = full_url\<rparr>)
          (extract_ids_from_lines (arg_regex args) lines)) = Inl msg"
    then have pp: "process_page lc svc args crop (lang_list args) (file_name pdf) full_url
               (length pre) page = (Inl (ServiceError msg), ?E)"
      using up by (simp add: process_page_def Let_def)
    from stop [OF pp]
    show m2: "main lc to_float svc args folder
         = (Inl (ServiceError msg),
            evd @ Processing (file_name pdf) # evf @ [Uploaded_full full_url] @ evp @ evu
              @ [Uploaded_single (length pre + 1) single_url])" by simp
    show "exit_code (fst (main lc to_float svc args folder)) = 1"
      unfolding m2 by (simp add: exit_code_def)
  }
  {
    assume a: "render_page_for_ocr (get_pixmap svc) page (arg_dpi args) crop = Inr img \<and>
     ocr_image_texts (text_detection svc) img (lang_list args) = Inr lines \<and>
     extract_ids_from_lines (arg_regex args) lines \<noteq> [] \<and>
     table_insert svc (arg_table args)
       (map (\<lambda>vid. \<lparr>voter_id = vid, single_page_pdf_link = single_url,
                     full_pdf_link = full_url\<rparr>)
          (extract_ids_from_lines (arg_regex args) lines)) = Inr (Some err)"
    then have pp: "process_page lc svc args crop (lang_list args) (file_name pdf) full_url
               (length pre) page
         = (Inr (), evu @ [Uploaded_single (length pre + 1) single_url] @ [Insert_error err])"
      using up by (simp add: process_page_def Let_def)
    show "pages_loop lc svc args crop (lang_list args) (file_name pdf) full_url 0
           (pre @ page # rest)
         = (case pages_loop lc svc args crop (lang_list args) (file_name pdf) full_url
                   (Suc (length pre)) rest of
              (r, ev) \<Rightarrow>
                (r, evp @ evu @ [Uploaded_single (length pre + 1) single_url, Insert_error err]
                      @ ev))"
      unfolding pages_loop_prefix [OF pre] using pp by (simp split: prod.splits)
  }
qed

theorem page_failures_end_the_run_witness:
  "main ascii_lc digits_float quota_services default_args [three_page_pdf]
     = (Inl (RuntimeError
          (u ''Vision API error: quota'' @ [10] @
           u ''Check billing/quotas/permissions and GOOGLE_APPLICATION_CREDENTIALS.'')),
        [Processing (u ''a.pdf''),
         Stored (u ''voters/a/a.pdf'') (u ''application/pdf''),
         Uploaded_full (u ''voters/a/a.pdf''),
         Stored (u ''voters/a/pages/a_p0001.pdf'') (u ''application/pdf''),
         Uploaded_single 1 (u ''voters/a/pages/a_p0001.pdf''),
         Rows_inserted (u ''2002_voter_details'')
           [\<lparr>voter_id = u ''WB11'', single_page_pdf_link = u ''voters/a/pages/a_p0001.pdf'',
             full_pdf_link = u ''voters/a/a.pdf''\<rparr>],
         Inserted 1 1,
         Stored (u ''voters/a/pages/a_p0002.pdf'') (u ''application/pdf''),
         Uploaded_single 2 (u ''voters/a/pages/a_p0002.pdf'')]) \<and>
   exit_code (fst (main ascii_lc digits_float quota_services default_args [three_page_pdf])) = 1 \<and>
   pages_loop ascii_lc refusing_services default_args None [u ''en''] (u ''b.pdf'')
       (u ''voters/b/b.pdf'') 0 [1]
     = (Inr (),
        [Stored (u ''voters/b/pages/b_p0001.pdf'') (u ''application/pdf''),
         Uploaded_single 1 (u ''voters/b/pages/b_p0001.pdf''),
         Insert_error (u ''denied'')])"
proof -
  let ?e = "RuntimeError
          (u ''Vision API error: quota'' @ [10] @
           u ''Check billing/quotas/permissions and GOOGLE_APPLICATION_CREDENTIALS.'')"
  let ?evp = "[Stored (u ''voters/a/pages/a_p0001.pdf'') (u ''application/pdf''),
         Uploaded_single 1 (u ''voters/a/pages/a_p0001.pdf''),
         Rows_inserted (u ''2002_voter_details'')
           [\<lparr>voter_id = u ''WB11'', single_page_pdf_link = u ''voters/a/pages/a_p0001.pdf'',
             full_pdf_link = u ''voters/a/a.pdf''\<rparr>],
         Inserted 1 1]"
  have files: "pdf_files ascii_lc [three_page_pdf] = [] @ three_page_pdf # []"
    by (simp add: files_a)
  have docs: "documents_loop ascii_lc quota_services default_args None
                (lang_list default_args) [] = (Inr (), [])"
    by simp
  have full: "upload_and_get_url ascii_lc quota_services
                (full_storage_path default_args (file_name three_page_pdf))
                (file_name three_page_pdf)
              = (Inr (u ''voters/a/a.pdf''),
                 [Stored (u ''voters/a/a.pdf'') (u ''application/pdf'')])"
    by (simp add: name_a full_path_a quota_upload suffix_a)
  have pages: "file_pages three_page_pdf = Inr ([1] @ 2 # [3])"
    by (simp add: pages_a)
  have pre: "pages_loop ascii_lc quota_services default_args None (lang_list default_args)
               (file_name three_page_pdf) (u ''voters/a/a.pdf'') 0 [1] = (Inr (), ?evp)"
    using quota_page_1 by (simp add: name_a default_langs)
  have up: "upload_and_get_url ascii_lc quota_services
              (single_storage_path default_args (file_name three_page_pdf) (length [1::nat] + 1))
              (single_local_name (file_name three_page_pdf) (length [1::nat] + 1))
            = (Inr (u ''voters/a/pages/a_p0002.pdf''),
               [Stored (u ''voters/a/pages/a_p0002.pdf'') (u ''application/pdf'')])"
    by (simp add: name_a single_name_a single_path_a quota_upload suffix_single)
  have ocr: "render_page_for_ocr (get_pixmap quota_services) 2 (arg_dpi default_args) None
               = Inl ?e \<or>
             render_page_for_ocr (get_pixmap quota_services) 2 (arg_dpi default_args) None
               = Inr 2 \<and>
             ocr_image_texts (text_detection quota_services) 2 (lang_list default_args) = Inl ?e"
    by (simp add: quota_render quota_ocr_2)
  from page_failures_end_the_run
         [where lines = "[]" and msg = "''''" and err = "[]",
          OF default_conv files docs full pages pre up] ocr
  have "main ascii_lc digits_float quota_services default_args [three_page_pdf]
     = (Inl ?e,
        [] @ Processing (file_name three_page_pdf) #
          [Stored (u ''voters/a/a.pdf'') (u ''application/pdf'')] @
          [Uploaded_full (u ''voters/a/a.pdf'')] @ ?evp @
          [Stored (u ''voters/a/pages/a_p0002.pdf'') (u ''application/pdf'')] @
          [Uploaded_single (length [1::nat] + 1) (u ''voters/a/pages/a_p0002.pdf'')]) \<and>
     exit_code (fst (main ascii_lc digits_float quota_services default_args [three_page_pdf])) = 1"
    by blast
  then have a: "main ascii_lc digits_float quota_services default_args [three_page_pdf]
     = (Inl ?e,
        [Processing (u ''a.pdf''),
         Stored (u ''voters/a/a.pdf'') (u ''application/pdf''),
         Uploaded_full (u ''voters/a/a.pdf''),
         Stored (u ''voters/a/pages/a_p0001.pdf'') (u ''application/pdf''),
         Uploaded_single 1 (u ''voters/a/pages/a_p0001.pdf''),
         Rows_inserted (u ''2002_voter_details'')
           [\<lparr>voter_id = u ''WB11'', single_page_pdf_link = u ''voters/a/pages/a_p0001.pdf'',
             full_pdf_link = u ''voters/a/a.pdf''\<rparr>],
         Inserted 1 1,
         Stored (u ''voters/a/pages/a_p0002.pdf'') (u ''application/pdf''),
         Uploaded_single 2 (u ''voters/a/pages/a_p0002.pdf'')]) \<and>
     exit_code (fst (main ascii_lc digits_float quota_services default_args [three_page_pdf])) = 1"
    by (simp add: name_a exit_code_def)
  have filesb: "pdf_files ascii_lc [one_page_pdf] = [] @ one_page_pdf # []"
    by (simp add: pdf_files_def one_page_pdf_def suffix_b lower_pdf)
  have docsb: "documents_loop ascii_lc refusing_services default_args None
                (lang_list default_args) [] = (Inr (), [])"
    by simp
  have fullb: "upload_and_get_url ascii_lc refusing_services
                (full_storage_path default_args (file_name one_page_pdf))
                (file_name one_page_pdf)
              = (Inr (u ''voters/b/b.pdf''),
                 [Stored (u ''voters/b/b.pdf'') (u ''application/pdf'')])"
    by (simp add: name_b full_path_b quota_upload suffix_b)
  have pagesb: "file_pages one_page_pdf = Inr ([] @ 1 # [])"
    by (simp add: pages_b)
  have preb: "pages_loop ascii_lc refusing_services default_args None (lang_list default_args)
               (file_name one_page_pdf) (u ''voters/b/b.pdf'') 0 [] = (Inr (), [])"
    by simp
  have upb: "upload_and_get_url ascii_lc refusing_services
              (single_storage_path default_args (file_name one_page_pdf)
                 (length ([]::nat list) + 1))
              (single_local_name (file_name one_page_pdf) (length ([]::nat list) + 1))
            = (Inr (u ''voters/b/pages/b_p0001.pdf''),
               [Stored (u ''voters/b/pages/b_p0001.pdf'') (u ''application/pdf'')])"
    by (simp add: name_b single_name_b single_path_b quota_upload suffix_single)
  have ins: "render_page_for_ocr (get_pixmap refusing_services) 1 (arg_dpi default_args) None
               = Inr 1 \<and>
     ocr_image_texts (text_detection refusing_services) 1 (lang_list default_args)
       = Inr [u ''WB/1/1''] \<and>
     extract_ids_from_lines (arg_regex default_args) [u ''WB/1/1''] \<noteq> [] \<and>
     table_insert refusing_services (arg_table default_args)
       (map (\<lambda>vid. \<lparr>voter_id = vid,
                     single_page_pdf_link = u ''voters/b/pages/b_p0001.pdf'',
                     full_pdf_link = u ''voters/b/b.pdf''\<rparr>)
          (extract_ids_from_lines (arg_regex default_args) [u ''WB/1/1'']))
       = Inr (Some (u ''denied''))"
    by (simp add: quota_render quota_ocr_1 extract_wb quota_insert)
  from page_failures_end_the_run
         [where e = "SystemExit 0" and msg = "''''" and rest = "[]",
          OF default_conv filesb docsb fullb pagesb preb upb] ins
  have "pages_loop ascii_lc refusing_services default_args None (lang_list default_args)
           (file_name one_page_pdf) (u ''voters/b/b.pdf'') 0 ([] @ 1 # [])
         = (case pages_loop ascii_lc refusing_services default_args None (lang_list default_args)
                   (file_name one_page_pdf) (u ''voters/b/b.pdf'')
                   (Suc (length ([]::nat list))) [] of
              (r, ev) \<Rightarrow>
                (r, [] @ [Stored (u ''voters/b/pages/b_p0001.pdf'') (u ''application/pdf'')] @
                      [Uploaded_single (length ([]::nat list) + 1)
                         (u ''voters/b/pages/b_p0001.pdf''),
                       Insert_error (u ''denied'')] @ ev))"
    by blast
  then have b: "pages_loop ascii_lc refusing_services default_args None [u ''en''] (u ''b.pdf'')
       (u ''voters/b/b.pdf'') 0 [1]
     = (Inr (),
        [Stored (u ''voters/b/pages/b_p0001.pdf'') (u ''application/pdf''),
         Uploaded_single 1 (u ''voters/b/pages/b_p0001.pdf''),
         Insert_error (u ''denied'')])"
    by (simp add: name_b default_langs del: pages_loop.simps(2)) 
  from a b show ?thesis by blast
qed

text \<open>
  The claim as stated fails on its own example: for a document of three pages whose
  second page gets an OCR error, the run ends with the \<open>RuntimeError\<close> at page 2. Page 3
  is never uploaded or read, no rows are inserted for it, and the exit code is 1.
\<close>

theorem page_failure_isolation_counterexample:
  "main ascii_lc digits_float quota_services default_args [three_page_pdf]
     = (Inl (RuntimeError
          (u ''Vision API error: quota'' @ [10] @
           u ''Check billing/quotas/permissions and GOOGLE_APPLICATION_CREDENTIALS.'')),
        [Processing (u ''a.pdf''),
         Stored (u ''voters/a/a.pdf'') (u ''application/pdf''),
         Uploaded_full (u ''voters/a/a.pdf''),
         Stored (u ''voters/a/pages/a_p0001.pdf'') (u ''application/pdf''),
         Uploaded_single 1 (u ''voters/a/pages/a_p0001.pdf''),
         Rows_inserted (u ''2002_voter_details'')
           [\<lparr>voter_id = u ''WB11'', single_page_pdf_link = u ''voters/a/pages/a_p0001.pdf'',
             full_pdf_link = u ''voters/a/a.pdf''\<rparr>],
         Inserted 1 1,
         Stored (u ''voters/a/pages/a_p0002.pdf'') (u ''application/pdf''),
         Uploaded_single 2 (u ''voters/a/pages/a_p0002.pdf'')]) \<and>
   exit_code (fst (main ascii_lc digits_float quota_services default_args [three_page_pdf])) = 1"
proof -
  have loop: "pages_loop ascii_lc quota_services default_args None [u ''en''] (u ''a.pdf'')
      (u ''voters/a/a.pdf'') 0 [1, 2, 3]
    = (Inl (RuntimeError
          (u ''Vision API error: quota'' @ [10] @
           u ''Check billing/quotas/permissions and GOOGLE_APPLICATION_CREDENTIALS.'')),
       [Stored (u ''voters/a/pages/a_p0001.pdf'') (u ''application/pdf''),
         Uploaded_single 1 (u ''voters/a/pages/a_p0001.pdf''),
         Rows_inserted (u ''2002_voter_details'')
           [\<lparr>voter_id = u ''WB11'', single_page_pdf_link = u ''voters/a/pages/a_p0001.pdf'',
             full_pdf_link = u ''voters/a/a.pdf''\<rparr>],
         Inserted 1 1,
         Stored (u ''voters/a/pages/a_p0002.pdf'') (u ''application/pdf''),
         Uploaded_single 2 (u ''voters/a/pages/a_p0002.pdf'')])"
    using quota_page_1 quota_page_2 by simp
  have doc: "process_document ascii_lc quota_services default_args None [u ''en''] three_page_pdf
    = (Inl (RuntimeError
          (u ''Vision API error: quota'' @ [10] @
           u ''Check billing/quotas/permissions and GOOGLE_APPLICATION_CREDENTIALS.'')),
       [Processing (u ''a.pdf''),
         Stored (u ''voters/a/a.pdf'') (u ''application/pdf''),
         Uploaded_full (u ''voters/a/a.pdf''),
         Stored (u ''voters/a/pages/a_p0001.pdf'') (u ''application/pdf''),
         Uploaded_single 1 (u ''voters/a/pages/a_p0001.pdf''),
         Rows_inserted (u ''2002_voter_details'')
           [\<lparr>voter_id = u ''WB11'', single_page_pdf_link = u ''voters/a/pages/a_p0001.pdf'',
             full_pdf_link = u ''voters/a/a.pdf''\<rparr>],
         Inserted 1 1,
         Stored (u ''voters/a/pages/a_p0002.pdf'') (u ''application/pdf''),
         Uploaded_single 2 (u ''voters/a/pages/a_p0002.pdf'')])"
    by (simp only: process_document_def Let_def name_a pages_a full_path_a
        quota_upload(1) [OF suffix_a] prod.case sum.case loop) simp
  have m: "main ascii_lc digits_float quota_services default_args [three_page_pdf]
     = (Inl (RuntimeError
          (u ''Vision API error: quota'' @ [10] @
           u ''Check billing/quotas/permissions and GOOGLE_APPLICATION_CREDENTIALS.'')),
        [Processing (u ''a.pdf''),
         Stored (u ''voters/a/a.pdf'') (u ''application/pdf''),
         Uploaded_full (u ''voters/a/a.pdf''),
         Stored (u ''voters/a/pages/a_p0001.pdf'') (u ''application/pdf''),
         Uploaded_single 1 (u ''voters/a/pages/a_p0001.pdf''),
         Rows_inserted (u ''2002_voter_details'')
           [\<lparr>voter_id = u ''WB11'', single_page_pdf_link = u ''voters/a/pages/a_p0001.pdf'',
             full_pdf_link = u ''voters/a/a.pdf''\<rparr>],
         Inserted 1 1,
         Stored (u ''voters/a/pages/a_p0002.pdf'') (u ''application/pdf''),
         Uploaded_single 2 (u ''voters/a/pages/a_p0002.pdf'')])"
    unfolding main_def default_conv files_a default_langs
    by (simp add: doc)
  show ?thesis unfolding m by (simp add: exit_code_def)
qed

text \<open>
  C2 (as amended). A failure of the upload of the full document is not caught either: it
  ends the run with that exception. The documents before it keep their effects, the
  document has its \<open>Processing\<close> line and nothing more, none of its pages and no later
  document is processed, and the exit code is 1.
\<close>

theorem full_upload_failure_ends_the_run:
  assumes conv: "convert_crop_units to_float (arg_ocr_crop args) (arg_units args) (arg_dpi args)
                   = Inr crop"
    and files: "pdf_files lc folder = done_docs @ pdf # later_docs"
    and docs: "documents_loop lc svc args crop (lang_list args) done_docs = (Inr (), evd)"
    and fail: "storage_upload svc (full_storage_path args (file_name pdf))
                 (content_type_of lc (path_suffix (file_name pdf))) = Some msg"
  shows "main lc to_float svc args folder
           = (Inl (ServiceError msg), evd @ [Processing (file_name pdf)]) \<and>
         exit_code (fst (main lc to_float svc args folder)) = 1"
proof -
  have "process_document lc svc args crop (lang_list args) pdf
          = (Inl (ServiceError msg), [Processing (file_name pdf)])"
    using fail by (simp add: process_document_def upload_and_get_url_def Let_def)
  from main_stops_at_failing_document [OF conv files docs this]
  show ?thesis by (simp add: exit_code_def)
qed

theorem full_upload_failure_ends_the_run_witness:
  "pdf_files ascii_lc [one_page_pdf, three_page_pdf] = [three_page_pdf, one_page_pdf] \<and>
   storage_upload failing_upload_services (u ''voters/a/a.pdf'') (u ''application/pdf'')
     = Some ''upload refused'' \<and>
   main ascii_lc digits_float failing_upload_services default_args
       [one_page_pdf, three_page_pdf]
     = (Inl (ServiceError ''upload refused''), [Processing (u ''a.pdf'')]) \<and>
   exit_code (fst (main ascii_lc digits_float failing_upload_services default_args
       [one_page_pdf, three_page_pdf])) = 1"
proof -
  have files: "pdf_files ascii_lc [one_page_pdf, three_page_pdf]
                 = [] @ three_page_pdf # [one_page_pdf]"
    by (simp add: files_ba)
  have docs: "documents_loop ascii_lc failing_upload_services default_args None
                (lang_list default_args) [] = (Inr (), [])"
    by simp
  have up: "storage_upload failing_upload_services (u ''voters/a/a.pdf'') (u ''application/pdf'')
              = Some ''upload refused''"
    by (simp add: failing_upload_services_def)
  have fail: "storage_upload failing_upload_services
                (full_storage_path default_args (file_name three_page_pdf))
                (content_type_of ascii_lc (path_suffix (file_name three_page_pdf)))
              = Some ''upload refused''"
    by (simp add: name_a full_path_a suffix_a pdf_content_type up)
  from full_upload_failure_ends_the_run [OF default_conv files docs fail]
  have "main ascii_lc digits_float failing_upload_services default_args
            [one_page_pdf, three_page_pdf]
          = (Inl (ServiceError ''upload refused''), [Processing (u ''a.pdf'')]) \<and>
        exit_code (fst (main ascii_lc digits_float failing_upload_services default_args
            [one_page_pdf, three_page_pdf])) = 1"
    by (simp add: name_a exit_code_def)
  with files_ba up show ?thesis by blast
qed

text \<open>
  The claim as stated fails: with two documents in the folder and a storage that refuses
  the full upload of the first, the run stops at the first document and the second is
  never processed.
\<close>

theorem full_upload_isolation_counterexample:
  "main ascii_lc digits_float failing_upload_services default_args
       [one_page_pdf, three_page_pdf]
     = (Inl (ServiceError ''upload refused''), [Processing (u ''a.pdf'')]) \<and>
   exit_code (fst (main ascii_lc digits_float failing_upload_services default_args
       [one_page_pdf, three_page_pdf])) = 1"
proof -
  have up: "storage_upload failing_upload_services (u ''voters/a/a.pdf'') ct
              = Some ''upload refused''" for ct
    by (simp add: failing_upload_services_def)
  have doc: "process_document ascii_lc failing_upload_services default_args None [u ''en'']
       three_page_pdf
     = (Inl (ServiceError ''upload refused''), [Processing (u ''a.pdf'')])"
    by (simp only: process_document_def upload_and_get_url_def Let_def name_a full_path_a up
        option.case prod.case sum.case)
  have m: "main ascii_lc digits_float failing_upload_services default_args
       [one_page_pdf, three_page_pdf]
     = (Inl (ServiceError ''upload refused''), [Processing (u ''a.pdf'')])"
    unfolding main_def default_conv files_ba default_langs
    by (simp add: doc)
  show ?thesis unfolding m by (simp add: exit_code_def)
qed

end
